theory Spec2Isabelle
  imports Complex_Main "HOL-Library.AList"
begin

section \<open>Python text operations used by the four programs\<close>

text \<open>
  A Python \<open>str\<close> is modelled as a \<open>string\<close>: a list of characters, each one of the
  first 256 code points. The operations below are the built-in ones the programs
  call (\<open>str.strip\<close>, \<open>str.lower\<close>, \<open>str.isdigit\<close>, \<open>str.split\<close>, \<open>int\<close>,
  \<open>str(int)\<close>, iteration over the lines of a text file), restricted to those code points.
\<close>

definition code_point :: "char \<Rightarrow> nat" where
  "code_point c = of_char c"

definition isspace :: "char \<Rightarrow> bool" where
  \<comment> \<open>\<open>str.isspace\<close> on one character: U+0009..U+000D, U+001C..U+0020, U+0085, U+00A0.\<close>
  "isspace c =
     (let n = code_point c
      in (9 \<le> n \<and> n \<le> 13) \<or> (28 \<le> n \<and> n \<le> 32) \<or> n = 133 \<or> n = 160)"

definition strip :: "string \<Rightarrow> string" where
  \<comment> \<open>\<open>s.strip()\<close>: leading and trailing whitespace removed.\<close>
  "strip s = rev (dropWhile isspace (rev (dropWhile isspace s)))"

definition lower_char :: "char \<Rightarrow> char" where
  \<comment> \<open>The upper-case letters below U+0100 are A..Z and U+00C0..U+00DE without U+00D7.\<close>
  "lower_char c =
     (let n = code_point c
      in if (65 \<le> n \<and> n \<le> 90) \<or> (192 \<le> n \<and> n \<le> 222 \<and> n \<noteq> 215)
         then char_of (n + 32) else c)"

definition lower :: "string \<Rightarrow> string" where
  "lower s = map lower_char s"

definition isdigit_char :: "char \<Rightarrow> bool" where
  \<comment> \<open>\<open>str.isdigit\<close> also accepts the superscript digits U+00B2, U+00B3, U+00B9.\<close>
  "isdigit_char c =
     (let n = code_point c in (48 \<le> n \<and> n \<le> 57) \<or> n = 178 \<or> n = 179 \<or> n = 185)"

definition isdigit :: "string \<Rightarrow> bool" where
  "isdigit s = (s \<noteq> [] \<and> list_all isdigit_char s)"

fun split :: "char \<Rightarrow> string \<Rightarrow> string list" where
  \<comment> \<open>\<open>s.split(sep)\<close> for a one-character separator: one more part than separators.\<close>
  "split sep [] = [[]]"
| "split sep (c # cs) =
     (if c = sep then [] # split sep cs
      else (case split sep cs of [] \<Rightarrow> [[c]] | w # ws \<Rightarrow> (c # w) # ws))"

fun split_max :: "char \<Rightarrow> nat \<Rightarrow> string \<Rightarrow> string list" where
  \<comment> \<open>\<open>s.split(sep, maxsplit)\<close>: only the first \<open>maxsplit\<close> separators, from the left, split.\<close>
  "split_max sep 0 s = [s]"
| "split_max sep (Suc n) [] = [[]]"
| "split_max sep (Suc n) (c # cs) =
     (if c = sep then [] # split_max sep n cs
      else (case split_max sep (Suc n) cs of [] \<Rightarrow> [[c]] | w # ws \<Rightarrow> (c # w) # ws))"

definition LF :: char where
  "LF = CHR 0x0A"

definition CR :: char where
  "CR = CHR 0x0D"

fun universal_newlines :: "string \<Rightarrow> string" where
  \<comment> \<open>Reading in text mode: \<open>\r\n\<close> and a lone \<open>\r\<close> arrive as \<open>\n\<close>.\<close>
  "universal_newlines [] = []"
| "universal_newlines [c] = (if c = CR then [LF] else [c])"
| "universal_newlines (c # d # cs) =
     (if c = CR then (if d = LF then LF # universal_newlines cs
                      else LF # universal_newlines (d # cs))
      else c # universal_newlines (d # cs))"

definition file_lines :: "string \<Rightarrow> string list" where
  \<comment> \<open>\<open>for line in f\<close>: the lines of the content, here without their terminating
      \<open>\n\<close> (every caller strips the line first, which removes it); a content that ends
      with \<open>\n\<close> has no further, empty line after it.\<close>
  "file_lines content =
     (let ps = split LF (universal_newlines content)
      in if last ps = [] then butlast ps else ps)"

definition is_ascii_digit :: "char \<Rightarrow> bool" where
  "is_ascii_digit c = (48 \<le> code_point c \<and> code_point c \<le> 57)"

definition digits_value :: "string \<Rightarrow> nat" where
  \<comment> \<open>The number a string of decimal digits denotes.\<close>
  "digits_value ds = foldl (\<lambda>acc c. 10 * acc + (code_point c - 48)) 0 ds"

fun no_double_underscore :: "string \<Rightarrow> bool" where
  "no_double_underscore (c # d # cs) =
     (\<not> (c = CHR ''_'' \<and> d = CHR ''_'') \<and> no_double_underscore (d # cs))"
| "no_double_underscore cs = True"

definition int_literal_ok :: "string \<Rightarrow> bool" where
  \<comment> \<open>Decimal digits, with single underscores allowed between digits.\<close>
  "int_literal_ok body =
     (body \<noteq> [] \<and> list_all (\<lambda>c. is_ascii_digit c \<or> c = CHR ''_'') body \<and>
      hd body \<noteq> CHR ''_'' \<and> last body \<noteq> CHR ''_'' \<and> no_double_underscore body)"

definition py_int :: "string \<Rightarrow> int option" where
  \<comment> \<open>\<open>int(s)\<close>: surrounding whitespace, then an optional sign, then the digits; \<open>None\<close>
      stands for \<open>ValueError\<close>. (The interpreter's limit on the number of digits, 4300 by
      default, is not modelled.)\<close>
  "py_int s =
     (let t = strip s;
          (sign, body) =
            (case t of
               [] \<Rightarrow> (1, [])
             | c # r \<Rightarrow> if c = CHR ''-'' then (- 1, r)
                        else if c = CHR ''+'' then (1, r) else (1, t))
      in if int_literal_ok body
         then Some (sign * int (digits_value (filter (\<lambda>c. c \<noteq> CHR ''_'') body)))
         else None)"

definition digit_char :: "nat \<Rightarrow> char" where
  \<comment> \<open>The character of a digit \<open>n < 10\<close>.\<close>
  "digit_char n = ''0123456789'' ! n"

fun str_nat :: "nat \<Rightarrow> string" where
  "str_nat n = (if n < 10 then [digit_char n] else str_nat (n div 10) @ [digit_char (n mod 10)])"

definition str_int :: "int \<Rightarrow> string" where
  \<comment> \<open>\<open>str(i)\<close>, as an f-string formats an \<open>int\<close>.\<close>
  "str_int i = (if i < 0 then CHR ''-'' # str_nat (nat (- i)) else str_nat (nat i))"

definition str_bool :: "bool \<Rightarrow> string" where
  "str_bool b = (if b then ''True'' else ''False'')"

definition upper_char :: "char \<Rightarrow> char" where
  \<comment> \<open>The lower-case letters below U+0100 with an upper case below U+0100 are a..z and
      U+00E0..U+00FE without U+00F7. (U+00B5 and U+00FF have their upper case beyond U+00FF
      and are left as they are here.)\<close>
  "upper_char c =
     (let n = code_point c
      in if (97 \<le> n \<and> n \<le> 122) \<or> (224 \<le> n \<and> n \<le> 254 \<and> n \<noteq> 247)
         then char_of (n - 32) else c)"

definition capitalize :: "string \<Rightarrow> string" where
  \<comment> \<open>\<open>s.capitalize()\<close>: the first character in title case (U+00DF becomes \<open>Ss\<close>), the
      others in lower case.\<close>
  "capitalize s =
     (case s of
        [] \<Rightarrow> []
      | c # cs \<Rightarrow> (if code_point c = 223 then ''Ss'' else [upper_char c]) @ lower cs)"

section \<open>Contact management system\<close>

record contact =
  Name :: string
  Contact :: string
  Email :: string
  Group :: string

definition VALID_GROUPS :: "string list" where
  "VALID_GROUPS = [''Home'', ''Office'']"

text \<open>
  The manager's state: the in-memory list and the database file (\<open>None\<close> while the file
  does not exist). What a method prints is returned beside the state.
\<close>

record contact_manager =
  contacts :: "contact list"
  database_file :: "string option"

datatype contact_message =
    Database_not_found
  | Skipping_malformed_line nat string
  | Contacts_loaded nat
  | Field_empty string
  | Contact_not_digits
  | Contact_seems_short
  | Invalid_email
  | Invalid_group
  | Already_exists string string
  | Contact_added
  | No_contacts
  | No_contact_found string string
  | Contact_updated
  | No_changes_made
  | Contacts_deleted

fun load_contact_lines :: "nat \<Rightarrow> string list \<Rightarrow> contact list \<times> contact_message list" where
  \<comment> \<open>The loop of \<open>_load_contacts\<close> over \<open>enumerate(f, 1)\<close>, from line number \<open>line_num\<close> on.\<close>
  "load_contact_lines line_num [] = ([], [])"
| "load_contact_lines line_num (raw # rest) =
     (let line = strip raw;
          (cs, ws) = load_contact_lines (Suc line_num) rest
      in if line \<noteq> [] then
           (case split (CHR '','') line of
              [p0, p1, p2, p3] \<Rightarrow>
                (\<lparr>Name = p0, Contact = p1, Email = p2, Group = p3\<rparr> # cs, ws)
            | _ \<Rightarrow> (cs, Skipping_malformed_line line_num line # ws))
         else (cs, ws))"

definition load_contacts :: "contact_manager \<Rightarrow> contact_manager \<times> contact_message list" where
  \<comment> \<open>\<open>ContactManager._load_contacts\<close>\<close>
  "load_contacts m =
     (case database_file m of
        None \<Rightarrow> (m\<lparr>contacts := []\<rparr>, [Database_not_found])
      | Some content \<Rightarrow>
          (let (cs, ws) = load_contact_lines 1 (file_lines content)
           in (m\<lparr>contacts := cs\<rparr>, ws @ [Contacts_loaded (length cs)])))"

definition contact_line :: "contact \<Rightarrow> string" where
  \<comment> \<open>The line \<open>_save_contacts\<close> writes for one contact, with its \<open>\n\<close>.\<close>
  "contact_line c = Name c @ '','' @ Contact c @ '','' @ Email c @ '','' @ Group c @ [LF]"

definition save_contacts :: "contact_manager \<Rightarrow> contact_manager" where
  \<comment> \<open>\<open>ContactManager._save_contacts\<close>: the file is overwritten with one line per contact.\<close>
  "save_contacts m = m\<lparr>database_file := Some (concat (map contact_line (contacts m)))\<rparr>"

fun is_contact_duplicate :: "contact list \<Rightarrow> string \<Rightarrow> string \<Rightarrow> bool" where
  \<comment> \<open>\<open>ContactManager._is_contact_duplicate\<close>, over \<open>self.contacts\<close>.\<close>
  "is_contact_duplicate [] name contact_num = False"
| "is_contact_duplicate (existing_contact # rest) name contact_num =
     (if lower (Name existing_contact) = lower name \<and> Contact existing_contact = contact_num
      then True
      else is_contact_duplicate rest name contact_num)"

definition email_match :: "string \<Rightarrow> bool" where
  \<comment> \<open>\<open>re.match(r"[^@]+@[^@]+\.[^@]+", value)\<close>: the text before the first \<open>@\<close> is not
      empty, and the run of characters other than \<open>@\<close> that follows it has a dot with at
      least one character before it and one after it. The match is anchored at the start
      only, so anything may follow.\<close>
  "email_match v =
     (let not_at = (\<lambda>c. c \<noteq> CHR ''@'')
      in takeWhile not_at v \<noteq> [] \<and>
         (case dropWhile not_at v of
            [] \<Rightarrow> False
          | _ # after \<Rightarrow> CHR ''.'' \<in> set (butlast (tl (takeWhile not_at after)))))"

definition validate_input :: "string \<Rightarrow> string \<Rightarrow> bool \<times> contact_message list" where
  \<comment> \<open>\<open>ContactManager._validate_input\<close>: the verdict and what it prints.\<close>
  "validate_input field_name raw =
     (let v = strip raw
      in if v = [] then (False, [Field_empty field_name])
         else if field_name = ''Contact'' then
           (if \<not> isdigit v then (False, [Contact_not_digits])
            else if length v < 7 then (True, [Contact_seems_short])
            else (True, []))
         else if field_name = ''Email'' then
           (if \<not> email_match v then (False, [Invalid_email]) else (True, []))
         else if field_name = ''Group'' then
           (if v \<notin> set VALID_GROUPS then (False, [Invalid_group]) else (True, []))
         else (True, []))"

definition add_contact ::
  "contact_manager \<Rightarrow> string \<Rightarrow> string \<Rightarrow> string \<Rightarrow> string \<Rightarrow>
   contact_manager \<times> contact_message list" where
  \<comment> \<open>\<open>ContactManager.add_contact\<close>; the four arguments are what the user types at the
      four prompts (a prompt after a failed validation is never reached).\<close>
  "add_contact m typed_name typed_contact typed_email typed_group =
     (let name = strip typed_name;
          (ok_name, out_name) = validate_input ''Name'' name
      in if \<not> ok_name then (m, out_name)
      else
        let contact_num = strip typed_contact;
            (ok_contact, out_contact) = validate_input ''Contact'' contact_num
        in if \<not> ok_contact then (m, out_name @ out_contact)
        else
          let email = strip typed_email;
              (ok_email, out_email) = validate_input ''Email'' email
          in if \<not> ok_email then (m, out_name @ out_contact @ out_email)
          else
            let group = strip typed_group;
                (ok_group, out_group) = validate_input ''Group'' group;
                out = out_name @ out_contact @ out_email @ out_group
            in if \<not> ok_group then (m, out)
            else if is_contact_duplicate (contacts m) name contact_num
              then (m, out @ [Already_exists name contact_num])
            else
              let new_contact = \<lparr>Name = name, Contact = contact_num, Email = email, Group = group\<rparr>
              in (save_contacts (m\<lparr>contacts := contacts m @ [new_contact]\<rparr>),
                  out @ [Contact_added]))"

fun find_target_index :: "contact list \<Rightarrow> string \<Rightarrow> string \<Rightarrow> nat option" where
  \<comment> \<open>The search loop of \<open>update_contact\<close>: the index of the first match, if any.\<close>
  "find_target_index [] name_to_find contact_num_to_find = None"
| "find_target_index (c # rest) name_to_find contact_num_to_find =
     (if lower (Name c) = lower name_to_find \<and> Contact c = contact_num_to_find then Some 0
      else map_option Suc (find_target_index rest name_to_find contact_num_to_find))"

definition update_field ::
  "string \<Rightarrow> string \<Rightarrow> (contact \<Rightarrow> contact) \<Rightarrow> contact \<times> bool \<times> contact_message list \<Rightarrow>
   contact \<times> bool \<times> contact_message list" where
  \<comment> \<open>One of the four steps \<open>if new and self._validate_input(field, new): ...\<close>.\<close>
  "update_field field_name new_value assign acc =
     (case acc of (c, updated_flag, out) \<Rightarrow>
        if new_value = [] then (c, updated_flag, out)
        else (let (ok, msgs) = validate_input field_name new_value
              in if ok then (assign c, True, out @ msgs) else (c, updated_flag, out @ msgs)))"

definition update_contact ::
  "contact_manager \<Rightarrow> string \<Rightarrow> string \<Rightarrow> string \<Rightarrow> string \<Rightarrow> string \<Rightarrow> string \<Rightarrow>
   contact_manager \<times> contact_message list" where
  \<comment> \<open>\<open>ContactManager.update_contact\<close>; the arguments are what the user types at the six
      prompts. The listing of the contacts it prints first, which only sorts and prints
      the stored strings, is left out of the messages.\<close>
  "update_contact m typed_name typed_contact typed_new_name typed_new_contact
       typed_new_email typed_new_group =
     (if contacts m = [] then (m, [No_contacts])
      else
        let name_to_find = strip typed_name;
            contact_num_to_find = strip typed_contact
        in case find_target_index (contacts m) name_to_find contact_num_to_find of
             None \<Rightarrow> (m, [No_contact_found name_to_find contact_num_to_find])
           | Some target_index \<Rightarrow>
               (let new_name = strip typed_new_name;
                    new_contact_num = strip typed_new_contact;
                    new_email = strip typed_new_email;
                    new_group = strip typed_new_group;
                    (c, updated_flag, out) =
                      update_field ''Group'' new_group (\<lambda>c. c\<lparr>Group := new_group\<rparr>)
                        (update_field ''Email'' new_email (\<lambda>c. c\<lparr>Email := new_email\<rparr>)
                          (update_field ''Contact'' new_contact_num
                               (\<lambda>c. c\<lparr>Contact := new_contact_num\<rparr>)
                            (update_field ''Name'' new_name (\<lambda>c. c\<lparr>Name := new_name\<rparr>)
                               (contacts m ! target_index, False, []))));
                    m' = m\<lparr>contacts := (contacts m)[target_index := c]\<rparr>
                in if updated_flag then (save_contacts m', out @ [Contact_updated])
                   else (m', out @ [No_changes_made])))"

definition delete_contact ::
  "contact_manager \<Rightarrow> string \<Rightarrow> string \<Rightarrow> contact_manager \<times> contact_message list" where
  \<comment> \<open>\<open>ContactManager.delete_contact\<close>\<close>
  "delete_contact m typed_name typed_contact =
     (if contacts m = [] then (m, [No_contacts])
      else
        let name_to_delete = strip typed_name;
            contact_to_delete = strip typed_contact;
            initial_count = length (contacts m);
            kept = filter (\<lambda>c. \<not> (lower (Name c) = lower name_to_delete \<and>
                                     Contact c = contact_to_delete)) (contacts m);
            m' = m\<lparr>contacts := kept\<rparr>
        in if length kept = initial_count
           then (m', [No_contact_found name_to_delete contact_to_delete])
           else (save_contacts m', [Contacts_deleted]))"

section \<open>To-do list\<close>

text \<open>
  \<open>datetime\<close> belongs to the standard library, not to the program: the type of a date and
  time is a type parameter \<open>'dt\<close>, and \<open>datetime.fromisoformat\<close> (with \<open>None\<close> for
  \<open>ValueError\<close>) and \<open>datetime.isoformat\<close> are parameters of the functions that call them.
  The current time \<open>datetime.now()\<close> is an argument of the method that reads it; it is a
  naive \<open>datetime\<close>, and Python raises \<open>TypeError\<close> when it is compared with an offset-aware
  one, or subtracted from it: whether a date and time is offset-aware is a parameter
  \<open>aware\<close>.
\<close>

record 'dt task =
  task_id :: int
  description :: string
  is_completed :: bool
  creation_datetime :: 'dt
  deadline_datetime :: "'dt option"

definition Task_init ::
  "int \<Rightarrow> string \<Rightarrow> bool \<Rightarrow> 'dt \<Rightarrow> 'dt option \<Rightarrow> 'dt task option" where
  \<comment> \<open>\<open>Task.__init__\<close>; \<open>None\<close> stands for \<open>ValueError\<close>. The \<open>isinstance\<close> checks hold by
      typing.\<close>
  "Task_init tid desc completed creation deadline =
     (if tid \<le> 0 then None
      else if strip desc = [] then None
      else Some \<lparr>task_id = tid, description = strip desc, is_completed = completed,
                 creation_datetime = creation, deadline_datetime = deadline\<rparr>)"

definition to_file_format :: "('dt \<Rightarrow> string) \<Rightarrow> 'dt task \<Rightarrow> string" where
  \<comment> \<open>\<open>Task.to_file_format\<close>\<close>
  "to_file_format isoformat t =
     (let creation_str = isoformat (creation_datetime t);
          deadline_str = (case deadline_datetime t of Some d \<Rightarrow> isoformat d | None \<Rightarrow> ''None'')
      in str_int (task_id t) @ '','' @ description t @ '','' @ str_bool (is_completed t) @ '','' @
         creation_str @ '','' @ deadline_str)"

record 'dt todo_manager =
  tasks :: "'dt task list"
  next_id :: int
  task_file :: "string option"

datatype task_message =
    No_tasks_file
  | Skipping_task_line nat string
  | Skipping_task_line_parts nat string nat
  | Tasks_loaded int
  | Description_empty
  | Task_added string int
  | Error_adding_task
  | No_tasks_to_remove
  | No_id_entered
  | Invalid_id_input
  | Task_removed int
  | Task_not_found int
  | Uncaught_TypeError

definition parse_task_parts :: "(string \<Rightarrow> 'dt option) \<Rightarrow> string list \<Rightarrow> 'dt task option" where
  \<comment> \<open>The \<open>try\<close> block of \<open>_load_tasks\<close> on the five parts of a line; \<open>None\<close> when any of its
      steps raises (\<open>int\<close>, \<open>fromisoformat\<close> or the constructor), in the order of the source.\<close>
  "parse_task_parts fromisoformat parts =
     (case parts of
        [p0, p1, p2, p3, p4] \<Rightarrow>
          (case py_int p0 of
             None \<Rightarrow> None
           | Some tid \<Rightarrow>
               (case fromisoformat p3 of
                  None \<Rightarrow> None
                | Some creation_dt \<Rightarrow>
                    (if p4 \<noteq> ''None''
                     then (case fromisoformat p4 of
                             None \<Rightarrow> None
                           | Some d \<Rightarrow>
                               Task_init tid p1 (lower p2 = ''true'') creation_dt (Some d))
                     else Task_init tid p1 (lower p2 = ''true'') creation_dt None)))
      | _ \<Rightarrow> None)"

fun load_task_lines ::
  "(string \<Rightarrow> 'dt option) \<Rightarrow> nat \<Rightarrow> int \<Rightarrow> string list \<Rightarrow>
   'dt task list \<times> int \<times> task_message list" where
  \<comment> \<open>The loop of \<open>_load_tasks\<close> from line number \<open>line_num\<close> on, with the running \<open>max_id\<close>;
      it returns the tasks appended, the final \<open>max_id\<close> and the warnings printed.\<close>
  "load_task_lines fromisoformat line_num max_id [] = ([], max_id, [])"
| "load_task_lines fromisoformat line_num max_id (raw # rest) =
     (let line = strip raw
      in if line = [] then load_task_lines fromisoformat (Suc line_num) max_id rest
         else
           let parts = split_max (CHR '','') 4 line
           in if length parts = 5 then
                (case parse_task_parts fromisoformat parts of
                   Some t \<Rightarrow>
                     (let (ts, final_max, ws) =
                            load_task_lines fromisoformat (Suc line_num)
                              (if task_id t > max_id then task_id t else max_id) rest
                      in (t # ts, final_max, ws))
                 | None \<Rightarrow>
                     (let (ts, final_max, ws) =
                            load_task_lines fromisoformat (Suc line_num) max_id rest
                      in (ts, final_max, Skipping_task_line line_num line # ws)))
              else
                (let (ts, final_max, ws) =
                       load_task_lines fromisoformat (Suc line_num) max_id rest
                 in (ts, final_max,
                     Skipping_task_line_parts line_num line (length parts) # ws)))"

definition load_tasks ::
  "(string \<Rightarrow> 'dt option) \<Rightarrow> 'dt todo_manager \<Rightarrow> 'dt todo_manager \<times> task_message list" where
  \<comment> \<open>\<open>ToDoListManager._load_tasks\<close>: a missing or zero-length file returns early and leaves
      \<open>_next_id\<close> as it was.\<close>
  "load_tasks fromisoformat m =
     (case task_file m of
        None \<Rightarrow> (m\<lparr>tasks := []\<rparr>, [No_tasks_file])
      | Some content \<Rightarrow>
          if content = [] then (m\<lparr>tasks := []\<rparr>, [No_tasks_file])
          else
            (let (ts, max_id, ws) = load_task_lines fromisoformat 1 0 (file_lines content)
             in (m\<lparr>tasks := ts, next_id := max_id + 1\<rparr>, ws @ [Tasks_loaded (max_id + 1)])))"

definition ToDoListManager_init ::
  "(string \<Rightarrow> 'dt option) \<Rightarrow> string option \<Rightarrow> 'dt todo_manager \<times> task_message list" where
  \<comment> \<open>\<open>ToDoListManager.__init__\<close> on a given state of the tasks file.\<close>
  "ToDoListManager_init fromisoformat file =
     load_tasks fromisoformat \<lparr>tasks = [], next_id = 1, task_file = file\<rparr>"

definition save_tasks :: "('dt \<Rightarrow> string) \<Rightarrow> 'dt todo_manager \<Rightarrow> 'dt todo_manager" where
  \<comment> \<open>\<open>ToDoListManager._save_tasks\<close>\<close>
  "save_tasks isoformat m =
     m\<lparr>task_file := Some (concat (map (\<lambda>t. to_file_format isoformat t @ [LF]) (tasks m)))\<rparr>"

definition add_task ::
  "('dt \<Rightarrow> string) \<Rightarrow> 'dt todo_manager \<Rightarrow> string \<Rightarrow> 'dt option \<Rightarrow> 'dt \<Rightarrow>
   'dt todo_manager \<times> task_message list" where
  \<comment> \<open>\<open>ToDoListManager.add_task\<close>: the description as typed, the deadline that
      \<open>_parse_datetime_input\<close> returned, and the current time.\<close>
  "add_task isoformat m typed_description deadline now =
     (let desc = strip typed_description
      in if desc = [] then (m, [Description_empty])
         else
           (case Task_init (next_id m) desc False now deadline of
              None \<Rightarrow> (m, [Error_adding_task])
            | Some new_task \<Rightarrow>
                (save_tasks isoformat
                   (m\<lparr>tasks := tasks m @ [new_task], next_id := next_id m + 1\<rparr>),
                 [Task_added (description new_task) (task_id new_task)])))"

definition str_raises :: "('dt \<Rightarrow> bool) \<Rightarrow> 'dt task \<Rightarrow> bool" where
  \<comment> \<open>Whether \<open>Task.__str__\<close> raises \<open>TypeError\<close>: for a task that is not completed and has
      a deadline it evaluates \<open>datetime.datetime.now() > self.deadline_datetime\<close>.\<close>
  "str_raises aware t =
     (\<not> is_completed t \<and> (case deadline_datetime t of None \<Rightarrow> False | Some d \<Rightarrow> aware d))"

definition view_all_tasks_raises :: "('dt \<Rightarrow> bool) \<Rightarrow> 'dt task list \<Rightarrow> bool" where
  \<comment> \<open>Whether \<open>view_all_tasks()\<close>, which with its default arguments prints every task,
      raises \<open>TypeError\<close>; what it prints is left out.\<close>
  "view_all_tasks_raises aware ts = list_ex (str_raises aware) ts"

definition remove_task ::
  "('dt \<Rightarrow> bool) \<Rightarrow> ('dt \<Rightarrow> string) \<Rightarrow> 'dt todo_manager \<Rightarrow> string \<Rightarrow>
   ('dt todo_manager \<times> task_message list) option" where
  \<comment> \<open>\<open>ToDoListManager.remove_task\<close>. It calls \<open>view_all_tasks()\<close> before its \<open>try\<close> block:
      \<open>None\<close> stands for the \<open>TypeError\<close> raised there, which nothing catches.\<close>
  "remove_task aware isoformat m typed_id =
     (if tasks m = [] then Some (m, [No_tasks_to_remove])
      else if view_all_tasks_raises aware (tasks m) then None
      else
        let task_id_input = strip typed_id
        in if task_id_input = [] then Some (m, [No_id_entered])
           else
             (case py_int task_id_input of
                None \<Rightarrow> Some (m, [Invalid_id_input])
              | Some tid \<Rightarrow>
                  (let initial_task_count = length (tasks m);
                       kept = filter (\<lambda>t. task_id t \<noteq> tid) (tasks m);
                       m' = m\<lparr>tasks := kept\<rparr>
                   in if length kept < initial_task_count
                      then Some (save_tasks isoformat m', [Task_removed tid])
                      else Some (m', [Task_not_found tid]))))"

subsection \<open>A concrete date and time\<close>

text \<open>
  For the closed examples: a \<open>datetime\<close> without \<open>tzinfo\<close> with its \<open>isoformat()\<close>
  (\<open>YYYY-MM-DDTHH:MM:SS\<close>, followed by \<open>.ffffff\<close> when the microsecond is not zero), and
  \<open>datetime.fromisoformat\<close> on exactly these two layouts (any character may stand for
  the \<open>T\<close>).
  Python reads further layouts (a date alone, shorter times, UTC offsets); they are not part
  of this instance, in which no date and time is offset-aware, and the general statements
  below do not depend on it.
\<close>

record datetime =
  year :: nat
  month :: nat
  day :: nat
  hour :: nat
  minute :: nat
  second :: nat
  microsecond :: nat

definition datetime_aware :: "datetime \<Rightarrow> bool" where
  \<comment> \<open>Without \<open>tzinfo\<close> every date and time is naive.\<close>
  "datetime_aware d = False"

definition zero_pad :: "nat \<Rightarrow> nat \<Rightarrow> string" where
  "zero_pad width n = replicate (width - length (str_nat n)) (CHR ''0'') @ str_nat n"

definition datetime_isoformat :: "datetime \<Rightarrow> string" where
  "datetime_isoformat d =
     zero_pad 4 (year d) @ ''-'' @ zero_pad 2 (month d) @ ''-'' @ zero_pad 2 (day d) @ ''T'' @
     zero_pad 2 (hour d) @ '':'' @ zero_pad 2 (minute d) @ '':'' @ zero_pad 2 (second d) @
     (if microsecond d = 0 then [] else ''.'' @ zero_pad 6 (microsecond d))"

definition digits_nat :: "string \<Rightarrow> nat option" where
  "digits_nat ds = (if ds \<noteq> [] \<and> list_all is_ascii_digit ds then Some (digits_value ds) else None)"

definition days_in_month :: "nat \<Rightarrow> nat \<Rightarrow> nat" where
  "days_in_month y m =
     (if m = 2 then (if y mod 4 = 0 \<and> (y mod 100 \<noteq> 0 \<or> y mod 400 = 0) then 29 else 28)
      else if m = 4 \<or> m = 6 \<or> m = 9 \<or> m = 11 then 30 else 31)"

definition datetime_fromisoformat :: "string \<Rightarrow> datetime option" where
  "datetime_fromisoformat s =
     (if length s = 19 \<or> length s = 26 then
        (case (digits_nat (take 4 s), digits_nat (take 2 (drop 5 s)),
               digits_nat (take 2 (drop 8 s)), digits_nat (take 2 (drop 11 s)),
               digits_nat (take 2 (drop 14 s)), digits_nat (take 2 (drop 17 s)),
               (if length s = 26 then digits_nat (drop 20 s) else Some 0)) of
           (Some y, Some mo, Some d, Some h, Some mi, Some se, Some us) \<Rightarrow>
             if s ! 4 = CHR ''-'' \<and> s ! 7 = CHR ''-'' \<and> s ! 13 = CHR '':'' \<and> s ! 16 = CHR '':'' \<and>
                (if length s = 26 then s ! 19 = CHR ''.'' else True) \<and>
                1 \<le> y \<and> 1 \<le> mo \<and> mo \<le> 12 \<and> 1 \<le> d \<and> d \<le> days_in_month y mo \<and>
                h < 24 \<and> mi < 60 \<and> se < 60
             then Some \<lparr>year = y, month = mo, day = d, hour = h, minute = mi, second = se,
                        microsecond = us\<rparr>
             else None
         | _ \<Rightarrow> None)
      else None)"

section \<open>Social media platform: accounts\<close>

text \<open>
  \<open>hashlib.sha256(password.encode()).hexdigest()\<close> belongs to the standard library: the
  digest is a parameter \<open>sha256\<close> of the functions that call it. A \<open>dict\<close> keeps its keys
  in insertion order, and assigning to a key that is present keeps its place: an association
  list under \<open>AList.update\<close>.
\<close>

record social_user =
  username :: string
  hashed_password :: string

definition User_init :: "string \<Rightarrow> string \<Rightarrow> social_user option" where
  \<comment> \<open>\<open>User.__init__\<close> of the platform; \<open>None\<close> stands for \<open>ValueError\<close>.\<close>
  "User_init name hashed =
     (if strip name = [] then None
      else if strip hashed = [] then None
      else Some \<lparr>username = strip name, hashed_password = strip hashed\<rparr>)"

record platform =
  users :: "(string \<times> social_user) list"
  users_file :: "string option"

datatype social_message =
    Username_and_password_empty
  | Username_taken string
  | Signup_error
  | Signed_up string

definition save_users :: "platform \<Rightarrow> platform" where
  \<comment> \<open>\<open>SocialMediaPlatform._save_users\<close>\<close>
  "save_users m =
     m\<lparr>users_file :=
         Some (concat (map (\<lambda>(key, user). username user @ '':'' @ hashed_password user @ [LF])
                 (users m)))\<rparr>"

definition signup ::
  "(string \<Rightarrow> string) \<Rightarrow> platform \<Rightarrow> string \<Rightarrow> string \<Rightarrow>
   platform \<times> bool \<times> social_message list" where
  \<comment> \<open>\<open>SocialMediaPlatform.signup\<close>: the new state, the value returned, what is printed.\<close>
  "signup sha256 m name password =
     (if strip name = [] \<or> strip password = [] then (m, False, [Username_and_password_empty])
      else if strip name \<in> set (map fst (users m)) then (m, False, [Username_taken name])
      else
        let hashed = sha256 password
        in case User_init (strip name) hashed of
             None \<Rightarrow> (m, False, [Signup_error])
           | Some new_user \<Rightarrow>
               (save_users (m\<lparr>users := AList.update (username new_user) new_user (users m)\<rparr>),
                True, [Signed_up (username new_user)]))"

section \<open>Personal finance tracker\<close>

text \<open>
  An amount is a Python \<open>float\<close>: a number, one of the two infinities, or \<open>nan\<close>, which
  \<open>float(s)\<close> reads from the texts \<open>inf\<close> and \<open>nan\<close>. The numbers are modelled as reals
  (rounding is the business of \<open>float(s)\<close>, and the two zeros are one value, as \<open>==\<close> has
  it). Every comparison with \<open>nan\<close> is false. \<open>float(s)\<close> (with \<open>None\<close> for \<open>ValueError\<close>) and
  the text an f-string gives a float are parameters \<open>to_float\<close> and \<open>float_str\<close>, as
  \<open>fromisoformat\<close>, \<open>isoformat\<close> and \<open>sha256\<close> are. The text typed at the prompts is a list of
  lines; when the list runs out, \<open>input()\<close> raises \<open>EOFError\<close>, which no method catches in
  its prompt loops: the result is then \<open>None\<close>.
\<close>

datatype py_float = Finite real | Inf | Neg_Inf | NaN

fun float_le :: "py_float \<Rightarrow> int \<Rightarrow> bool" where
  \<comment> \<open>\<open>x <= n\<close> for a float \<open>x\<close> and an \<open>int\<close> \<open>n\<close>\<close>
  "float_le (Finite x) n = (x \<le> of_int n)"
| "float_le Inf n = False"
| "float_le Neg_Inf n = True"
| "float_le NaN n = False"

fun float_lt :: "py_float \<Rightarrow> int \<Rightarrow> bool" where
  \<comment> \<open>\<open>x < n\<close> for a float \<open>x\<close> and an \<open>int\<close> \<open>n\<close>\<close>
  "float_lt (Finite x) n = (x < of_int n)"
| "float_lt Inf n = False"
| "float_lt Neg_Inf n = True"
| "float_lt NaN n = False"

definition VALID_CATEGORIES :: "string list" where
  "VALID_CATEGORIES = [''freelancer'', ''full time'', ''part time'']"

record fin_user =
  account_no :: string
  fin_hashed_password :: string
  fin_name :: string
  category :: string

record 'dt transaction =
  tr_account_no :: string
  timestamp :: 'dt
  trans_type :: string
  amount :: py_float
  tr_description :: string

record 'dt tracker =
  fin_users :: "(string \<times> fin_user) list"
  transactions :: "'dt transaction list"
  fin_users_file :: "string option"
  transactions_file :: "string option"

datatype fin_message =
    No_user_file
  | Invalid_category nat string string
  | Malformed_user_line nat string
  | Users_loaded nat
  | No_transactions_file
  | Invalid_transaction nat string
  | Malformed_transaction_data nat
  | Malformed_transaction_line nat string
  | Transactions_loaded nat
  | Account_digits_only
  | Account_exists string
  | Password_empty
  | Name_empty
  | Invalid_category_choice
  | Account_created string
  | Amount_must_be_positive
  | Invalid_amount
  | Invalid_type
  | Description_empty_default
  | Transaction_added

fun load_user_lines ::
  "nat \<Rightarrow> (string \<times> fin_user) list \<Rightarrow> string list \<Rightarrow>
   (string \<times> fin_user) list \<times> fin_message list" where
  \<comment> \<open>The loop of \<open>FinancialTracker._load_users\<close> from line number \<open>line_num\<close> on, with the
      dictionary built so far.\<close>
  "load_user_lines line_num acc [] = (acc, [])"
| "load_user_lines line_num acc (raw # rest) =
     (let line = strip raw
      in if line = [] then load_user_lines (Suc line_num) acc rest
         else
           (case split_max (CHR '':'') 3 line of
              [p0, p1, p2, p3] \<Rightarrow>
                if p3 \<notin> set VALID_CATEGORIES then
                  (let (us, ws) = load_user_lines (Suc line_num) acc rest
                   in (us, Invalid_category line_num p3 p0 # ws))
                else
                  load_user_lines (Suc line_num)
                    (AList.update p0
                       \<lparr>account_no = p0, fin_hashed_password = p1, fin_name = p2, category = p3\<rparr>
                       acc) rest
            | _ \<Rightarrow>
                (let (us, ws) = load_user_lines (Suc line_num) acc rest
                 in (us, Malformed_user_line line_num line # ws))))"

definition load_users :: "'dt tracker \<Rightarrow> 'dt tracker \<times> fin_message list" where
  \<comment> \<open>\<open>FinancialTracker._load_users\<close>\<close>
  "load_users m =
     (case fin_users_file m of
        None \<Rightarrow> (m\<lparr>fin_users := []\<rparr>, [No_user_file])
      | Some content \<Rightarrow>
          if content = [] then (m\<lparr>fin_users := []\<rparr>, [No_user_file])
          else
            (let (us, ws) = load_user_lines 1 [] (file_lines content)
             in (m\<lparr>fin_users := us\<rparr>, ws @ [Users_loaded (length us)])))"

definition save_fin_users :: "'dt tracker \<Rightarrow> 'dt tracker" where
  \<comment> \<open>\<open>FinancialTracker._save_users\<close> with \<open>User.to_file_format\<close>\<close>
  "save_fin_users m =
     m\<lparr>fin_users_file :=
         Some (concat (map (\<lambda>(key, user).
                 account_no user @ '':'' @ fin_hashed_password user @ '':'' @ fin_name user @
                 '':'' @ category user @ [LF]) (fin_users m)))\<rparr>"

fun load_transaction_lines ::
  "(string \<Rightarrow> py_float option) \<Rightarrow> (string \<Rightarrow> 'dt option) \<Rightarrow> nat \<Rightarrow> string list \<Rightarrow>
   'dt transaction list \<times> fin_message list" where
  \<comment> \<open>The loop of \<open>FinancialTracker._load_transactions\<close> from line number \<open>line_num\<close> on.\<close>
  "load_transaction_lines to_float fromisoformat line_num [] = ([], [])"
| "load_transaction_lines to_float fromisoformat line_num (raw # rest) =
     (let line = strip raw;
          (ts, ws) = load_transaction_lines to_float fromisoformat (Suc line_num) rest
      in if line = [] then (ts, ws)
         else
           (case split_max (CHR '','') 4 line of
              [p0, p1, p2, p3, p4] \<Rightarrow>
                (case fromisoformat p1 of
                   None \<Rightarrow> (ts, Malformed_transaction_data line_num # ws)
                 | Some stamp \<Rightarrow>
                     (case to_float p3 of
                        None \<Rightarrow> (ts, Malformed_transaction_data line_num # ws)
                      | Some amt \<Rightarrow>
                          if p2 \<notin> set [''Income'', ''Expense''] \<or> float_lt amt 0
                          then (ts, Invalid_transaction line_num p0 # ws)
                          else (\<lparr>tr_account_no = p0, timestamp = stamp, trans_type = p2,
                                  amount = amt, tr_description = p4\<rparr> # ts, ws)))
            | _ \<Rightarrow> (ts, Malformed_transaction_line line_num line # ws)))"

definition load_transactions ::
  "(string \<Rightarrow> py_float option) \<Rightarrow> (string \<Rightarrow> 'dt option) \<Rightarrow> 'dt tracker \<Rightarrow>
   'dt tracker \<times> fin_message list" where
  \<comment> \<open>\<open>FinancialTracker._load_transactions\<close>\<close>
  "load_transactions to_float fromisoformat m =
     (case transactions_file m of
        None \<Rightarrow> (m\<lparr>transactions := []\<rparr>, [No_transactions_file])
      | Some content \<Rightarrow>
          if content = [] then (m\<lparr>transactions := []\<rparr>, [No_transactions_file])
          else
            (let (ts, ws) = load_transaction_lines to_float fromisoformat 1 (file_lines content)
             in (m\<lparr>transactions := ts\<rparr>, ws @ [Transactions_loaded (length ts)])))"

definition transaction_line :: "(py_float \<Rightarrow> string) \<Rightarrow> ('dt \<Rightarrow> string) \<Rightarrow> 'dt transaction \<Rightarrow> string" where
  \<comment> \<open>\<open>Transaction.to_file_format\<close>\<close>
  "transaction_line float_str isoformat t =
     tr_account_no t @ '','' @ isoformat (timestamp t) @ '','' @ trans_type t @ '','' @
     float_str (amount t) @ '','' @ tr_description t"

definition append_transaction_to_file ::
  "(py_float \<Rightarrow> string) \<Rightarrow> ('dt \<Rightarrow> string) \<Rightarrow> 'dt tracker \<Rightarrow> 'dt transaction \<Rightarrow>
   'dt tracker" where
  \<comment> \<open>\<open>FinancialTracker._append_transaction_to_file\<close>: mode \<open>'a'\<close> creates a missing file.\<close>
  "append_transaction_to_file float_str isoformat m t =
     m\<lparr>transactions_file :=
         Some ((case transactions_file m of None \<Rightarrow> [] | Some content \<Rightarrow> content) @
               transaction_line float_str isoformat t @ [LF])\<rparr>"

fun read_amount ::
  "(string \<Rightarrow> py_float option) \<Rightarrow> string list \<Rightarrow>
   (py_float \<times> string list) option \<times> fin_message list" where
  \<comment> \<open>The first \<open>while True\<close> loop of \<open>add_transaction\<close>: the amount accepted and the lines
      left, with what was printed on the way.\<close>
  "read_amount to_float [] = (None, [])"
| "read_amount to_float (typed # rest) =
     (case to_float (strip typed) of
        None \<Rightarrow> (let (r, out) = read_amount to_float rest in (r, Invalid_amount # out))
      | Some amt \<Rightarrow>
          if float_le amt 0
          then (let (r, out) = read_amount to_float rest in (r, Amount_must_be_positive # out))
          else (Some (amt, rest), []))"

fun read_type :: "string list \<Rightarrow> (string \<times> string list) option \<times> fin_message list" where
  \<comment> \<open>The second loop of \<open>add_transaction\<close>.\<close>
  "read_type [] = (None, [])"
| "read_type (typed # rest) =
     (let ttype = capitalize (strip typed)
      in if ttype \<in> set [''Income'', ''Expense''] then (Some (ttype, rest), [])
         else (let (r, out) = read_type rest in (r, Invalid_type # out)))"

definition add_transaction ::
  "(string \<Rightarrow> py_float option) \<Rightarrow> (py_float \<Rightarrow> string) \<Rightarrow> ('dt \<Rightarrow> string) \<Rightarrow> 'dt tracker \<Rightarrow>
   string \<Rightarrow> string list \<Rightarrow> 'dt \<Rightarrow> ('dt tracker \<times> string list) option \<times> fin_message list" where
  \<comment> \<open>\<open>FinancialTracker.add_transaction\<close> on the lines typed and the current time: the new
      state with the lines left, and what was printed.\<close>
  "add_transaction to_float float_str isoformat m current_user_account_no typed now =
     (case read_amount to_float typed of
        (None, out1) \<Rightarrow> (None, out1)
      | (Some (amt, typed1), out1) \<Rightarrow>
          (case read_type typed1 of
             (None, out2) \<Rightarrow> (None, out1 @ out2)
           | (Some (ttype, typed2), out2) \<Rightarrow>
               (case typed2 of
                  [] \<Rightarrow> (None, out1 @ out2)
                | typed_description # typed3 \<Rightarrow>
                    (let entered = strip typed_description;
                         (desc, out3) = (if entered = [] then (''N/A'', [Description_empty_default])
                                         else (entered, []));
                         new_transaction =
                           \<lparr>tr_account_no = current_user_account_no, timestamp = now,
                             trans_type = ttype, amount = amt, tr_description = desc\<rparr>
                     in (Some (append_transaction_to_file float_str isoformat
                                 (m\<lparr>transactions := transactions m @ [new_transaction]\<rparr>)
                                 new_transaction,
                               typed3),
                         out1 @ out2 @ out3 @ [Transaction_added])))))"

fun read_account_no ::
  "string list \<Rightarrow> string list \<Rightarrow> (string \<times> string list) option \<times> fin_message list" where
  \<comment> \<open>The first loop of \<open>FinancialTracker.signup\<close>, over the account numbers in use.\<close>
  "read_account_no in_use [] = (None, [])"
| "read_account_no in_use (typed # rest) =
     (let account = strip typed
      in if \<not> isdigit account
         then (let (r, out) = read_account_no in_use rest in (r, Account_digits_only # out))
         else if account \<in> set in_use
         then (let (r, out) = read_account_no in_use rest in (r, Account_exists account # out))
         else (Some (account, rest), []))"

fun read_category :: "string list \<Rightarrow> (string \<times> string list) option \<times> fin_message list" where
  \<comment> \<open>The second loop of \<open>FinancialTracker.signup\<close>.\<close>
  "read_category [] = (None, [])"
| "read_category (typed # rest) =
     (let cat = lower (strip typed)
      in if cat \<in> set VALID_CATEGORIES then (Some (cat, rest), [])
         else (let (r, out) = read_category rest in (r, Invalid_category_choice # out)))"

definition fin_signup ::
  "(string \<Rightarrow> string) \<Rightarrow> 'dt tracker \<Rightarrow> string list \<Rightarrow>
   ('dt tracker \<times> bool \<times> string list) option \<times> fin_message list" where
  \<comment> \<open>\<open>FinancialTracker.signup\<close> on the lines typed: the new state, the value returned and
      the lines left, with what was printed.\<close>
  "fin_signup sha256 m typed =
     (case read_account_no (map fst (fin_users m)) typed of
        (None, out1) \<Rightarrow> (None, out1)
      | (Some (account, typed1), out1) \<Rightarrow>
          (case typed1 of
             [] \<Rightarrow> (None, out1)
           | typed_password # typed2 \<Rightarrow>
               if strip typed_password = [] then (Some (m, False, typed2), out1 @ [Password_empty])
               else
                 (case typed2 of
                    [] \<Rightarrow> (None, out1)
                  | typed_name # typed3 \<Rightarrow>
                      if strip typed_name = [] then (Some (m, False, typed3), out1 @ [Name_empty])
                      else
                        (case read_category typed3 of
                           (None, out2) \<Rightarrow> (None, out1 @ out2)
                         | (Some (cat, typed4), out2) \<Rightarrow>
                             (let new_user =
                                    \<lparr>account_no = account,
                                      fin_hashed_password = sha256 (strip typed_password),
                                      fin_name = strip typed_name, category = cat\<rparr>
                              in (Some (save_fin_users
                                          (m\<lparr>fin_users :=
                                               AList.update account new_user (fin_users m)\<rparr>),
                                        True, typed4),
                                  out1 @ out2 @ [Account_created account]))))))"

subsection \<open>A concrete \<open>float\<close> for the closed examples\<close>

text \<open>
  \<open>float(s)\<close> on plain decimal literals (an optional sign, digits, an optional point and
  digits), with the value the literal denotes, and on the texts \<open>inf\<close>, \<open>infinity\<close> and
  \<open>nan\<close> with an optional sign, in any letter case; Python reads further forms (exponents,
  underscores) and rounds to a binary float. \<open>whole_float_str\<close> is the text of a float
  without a fractional part (\<open>100.0\<close>, \<open>inf\<close>, \<open>nan\<close>). The general statements do not depend
  on either.
\<close>

definition float_of_literal :: "string \<Rightarrow> py_float option" where
  "float_of_literal s =
     (let t = strip s;
          (negative, body) =
            (case t of
               [] \<Rightarrow> (False, [])
             | c # r \<Rightarrow> if c = CHR ''-'' then (True, r)
                        else if c = CHR ''+'' then (False, r) else (False, t));
          whole = takeWhile (\<lambda>c. c \<noteq> CHR ''.'') body;
          frac = drop 1 (dropWhile (\<lambda>c. c \<noteq> CHR ''.'') body)
      in if lower body = ''nan'' then Some NaN
         else if lower body = ''inf'' \<or> lower body = ''infinity''
         then Some (if negative then Neg_Inf else Inf)
         else if list_all is_ascii_digit whole \<and> list_all is_ascii_digit frac \<and>
                 (whole \<noteq> [] \<or> frac \<noteq> [])
         then Some (Finite ((if negative then - 1 else 1) *
                            (real (digits_value whole) +
                             real (digits_value frac) / 10 ^ length frac)))
         else None)"

fun whole_float_str :: "py_float \<Rightarrow> string" where
  "whole_float_str (Finite r) = str_int \<lfloor>r\<rfloor> @ ''.0''"
| "whole_float_str Inf = ''inf''"
| "whole_float_str Neg_Inf = ''-inf''"
| "whole_float_str NaN = ''nan''"

definition fixed_digest :: "string \<Rightarrow> string" where
  \<comment> \<open>A stand-in for the digest in the closed examples: 64 hexadecimal digits, the same
      for every password.\<close>
  "fixed_digest password = concat (replicate 16 ''0a1b'')"

section \<open>Notions used in the statements about the contact manager\<close>

definition accepted :: "string \<Rightarrow> string \<Rightarrow> bool" where
  \<comment> \<open>The test of each update step: a new value was typed and it passes validation.\<close>
  "accepted field_name new_value =
     (new_value \<noteq> [] \<and> fst (validate_input field_name new_value))"

definition pick :: "string \<Rightarrow> string \<Rightarrow> string \<Rightarrow> string" where
  "pick field_name new_value old_value =
     (if accepted field_name new_value then new_value else old_value)"

definition updated_contact ::
  "contact \<Rightarrow> string \<Rightarrow> string \<Rightarrow> string \<Rightarrow> string \<Rightarrow> contact" where
  \<comment> \<open>The contact with every accepted new value in place and every other field as it was.\<close>
  "updated_contact c new_name new_contact_num new_email new_group =
     c\<lparr>Name := pick ''Name'' new_name (Name c),
       Contact := pick ''Contact'' new_contact_num (Contact c),
       Email := pick ''Email'' new_email (Email c),
       Group := pick ''Group'' new_group (Group c)\<rparr>"

definition no_duplicates :: "contact list \<Rightarrow> bool" where
  \<comment> \<open>No two contacts with the same name up to letter case and the same number.\<close>
  "no_duplicates cs = distinct (map (\<lambda>c. (lower (Name c), Contact c)) cs)"

definition contact_text :: "contact \<Rightarrow> string" where
  \<comment> \<open>The four fields joined by commas: the written line without its \<open>\n\<close>.\<close>
  "contact_text c = Name c @ '','' @ Contact c @ '','' @ Email c @ '','' @ Group c"

definition no_delimiter :: "string \<Rightarrow> bool" where
  \<comment> \<open>Neither a comma nor a line break.\<close>
  "no_delimiter f = list_all (\<lambda>ch. ch \<noteq> CHR '','' \<and> ch \<noteq> LF \<and> ch \<noteq> CR) f"

definition storable :: "contact \<Rightarrow> bool" where
  \<comment> \<open>No field holds a comma or a line break, the name does not begin with whitespace and
      the group does not end with it.\<close>
  "storable c =
     (no_delimiter (Name c) \<and> no_delimiter (Contact c) \<and> no_delimiter (Email c) \<and>
      no_delimiter (Group c) \<and>
      (Name c = [] \<or> \<not> isspace (hd (Name c))) \<and>
      (Group c = [] \<or> \<not> isspace (last (Group c))))"

datatype contact_op =
    Add string string string string
  | Update string string string string string string
  | Delete string string

fun run_contact_ops :: "contact_manager \<Rightarrow> contact_op list \<Rightarrow> contact_manager" where
  \<comment> \<open>A session of the menu loop: the three operations that change the contacts, each with
      what is typed at its prompts.\<close>
  "run_contact_ops m [] = m"
| "run_contact_ops m (Add n k e g # ops) = run_contact_ops (fst (add_contact m n k e g)) ops"
| "run_contact_ops m (Update a b n k e g # ops) =
     run_contact_ops (fst (update_contact m a b n k e g)) ops"
| "run_contact_ops m (Delete n k # ops) = run_contact_ops (fst (delete_contact m n k)) ops"

definition update_collides ::
  "contact_manager \<Rightarrow> string \<Rightarrow> string \<Rightarrow> string \<Rightarrow> string \<Rightarrow> bool" where
  \<comment> \<open>The test of \<open>_is_contact_duplicate\<close>, which \<open>update_contact\<close> does not make: the name
      and the number that the update leaves in the contact it finds are those of another
      contact of the list.\<close>
  "update_collides m typed_name typed_contact typed_new_name typed_new_contact =
     (case find_target_index (contacts m) (strip typed_name) (strip typed_contact) of
        None \<Rightarrow> False
      | Some i \<Rightarrow>
          is_contact_duplicate (take i (contacts m) @ drop (Suc i) (contacts m))
            (pick ''Name'' (strip typed_new_name) (Name (contacts m ! i)))
            (pick ''Contact'' (strip typed_new_contact) (Contact (contacts m ! i))))"

fun collision_free :: "contact_manager \<Rightarrow> contact_op list \<Rightarrow> bool" where
  \<comment> \<open>No update of the session collides, each in the state in which it is made.\<close>
  "collision_free m [] = True"
| "collision_free m (Add n k e g # ops) = collision_free (fst (add_contact m n k e g)) ops"
| "collision_free m (Update a b n k e g # ops) =
     (\<not> update_collides m a b n k \<and>
      collision_free (fst (update_contact m a b n k e g)) ops)"
| "collision_free m (Delete n k # ops) = collision_free (fst (delete_contact m n k)) ops"

section \<open>Notions used in the statements about the loaders\<close>









section \<open>Notions used in the statements about the to-do list\<close>

datatype 'dt todo_op = Add_task string "'dt option" 'dt | Remove_task string

fun run_todo_ops ::
  "('dt \<Rightarrow> bool) \<Rightarrow> ('dt \<Rightarrow> string) \<Rightarrow> 'dt todo_manager \<Rightarrow> 'dt todo_op list \<Rightarrow>
   'dt todo_manager \<times> task_message list" where
  \<comment> \<open>A session of the menu loop that adds and removes: the state it reaches and what it
      prints. An uncaught exception leaves \<open>main()\<close> and ends the session there.\<close>
  "run_todo_ops aware isoformat m [] = (m, [])"
| "run_todo_ops aware isoformat m (Add_task typed_description deadline now # ops) =
     (let (m1, out1) = add_task isoformat m typed_description deadline now;
          (m2, out2) = run_todo_ops aware isoformat m1 ops
      in (m2, out1 @ out2))"
| "run_todo_ops aware isoformat m (Remove_task typed_id # ops) =
     (case remove_task aware isoformat m typed_id of
        None \<Rightarrow> (m, [Uncaught_TypeError])
      | Some (m1, out1) \<Rightarrow>
          (let (m2, out2) = run_todo_ops aware isoformat m1 ops
           in (m2, out1 @ out2)))"

fun issued :: "task_message list \<Rightarrow> int list" where
  \<comment> \<open>The ids that the "Task added" messages of a run report, in order.\<close>
  "issued [] = []"
| "issued (Task_added desc i # out) = i # issued out"
| "issued (other # out) = issued out"

definition counting_from :: "int \<Rightarrow> nat \<Rightarrow> int list" where
  \<comment> \<open>\<open>i, i + 1, ..., i + n - 1\<close>\<close>
  "counting_from i n = map (\<lambda>k. i + int k) [0..<n]"

section \<open>Notions used in the statements about the finance tracker\<close>

definition valid_category :: "string \<times> fin_user \<Rightarrow> bool" where
  \<comment> \<open>An entry of the users dictionary whose category is one of the allowed ones.\<close>
  "valid_category entry = (category (snd entry) \<in> set VALID_CATEGORIES)"

definition task_storable :: "('dt \<Rightarrow> string) \<Rightarrow> (string \<Rightarrow> 'dt option) \<Rightarrow> 'dt task \<Rightarrow> bool" where
  \<comment> \<open>A task as the constructor makes it (positive id, stripped non-empty description),
      whose description holds no comma or line break and whose dates are written without
      comma or line break and are read back as they were.\<close>
  "task_storable isoformat fromisoformat t =
     (0 < task_id t \<and> description t \<noteq> [] \<and> strip (description t) = description t \<and>
      no_delimiter (description t) \<and>
      no_delimiter (isoformat (creation_datetime t)) \<and>
      fromisoformat (isoformat (creation_datetime t)) = Some (creation_datetime t) \<and>
      (case deadline_datetime t of
         None \<Rightarrow> True
       | Some d \<Rightarrow>
           no_delimiter (isoformat d) \<and> isoformat d \<noteq> [] \<and> isoformat d \<noteq> ''None'' \<and>
           \<not> isspace (last (isoformat d)) \<and> fromisoformat (isoformat d) = Some d))"

definition deadline_str :: "('dt \<Rightarrow> string) \<Rightarrow> 'dt task \<Rightarrow> string" where
  \<comment> \<open>The last field that \<open>to_file_format\<close> writes.\<close>
  "deadline_str isoformat t =
     (case deadline_datetime t of Some d \<Rightarrow> isoformat d | None \<Rightarrow> ''None'')"

section \<open>Concrete inputs\<close>

definition alice_book :: contact_manager where
  \<comment> \<open>An empty manager after adding ("Alice", "5551234567", "a@b.com", "Home").\<close>
  "alice_book =
     fst (add_contact \<lparr>contacts = [], database_file = None\<rparr>
            ''Alice'' ''5551234567'' ''a@b.com'' ''Home'')"

definition twice_alice :: string where
  \<comment> \<open>A database file with two lines for the same name (up to case) and number.\<close>
  "twice_alice =
     ''Alice,5551234567,a@b.com,Home'' @ [LF] @ ''alice,5551234567,x@y.com,Office'' @ [LF]"


definition tasks_137 :: string where
  "tasks_137 =
     ''1,Buy milk,False,2024-06-16T16:00:00,None'' @ [LF] @
     ''3,Call Bob,True,2024-06-17T09:30:00,2024-06-20T12:00:00'' @ [LF] @
     ''7,Pay rent,False,2024-06-18T08:15:00.000250,None'' @ [LF]"


definition comma_book :: contact_manager where
  \<comment> \<open>An empty manager after adding a contact whose name holds a comma.\<close>
  "comma_book =
     fst (add_contact \<lparr>contacts = [], database_file = None\<rparr>
            ''Doe, Jane'' ''5551234567'' ''jane@doe.org'' ''Home'')"

definition tasks_12 :: string where
  "tasks_12 =
     ''1,Buy milk,False,2024-06-16T16:00:00,None'' @ [LF] @
     ''2,Call Bob,False,2024-06-17T09:30:00,None'' @ [LF]"

definition noon :: datetime where
  "noon = \<lparr>year = 2024, month = 7, day = 1, hour = 12, minute = 0, second = 0, microsecond = 0\<rparr>"

definition restart :: "datetime todo_manager \<Rightarrow> datetime todo_manager" where
  \<comment> \<open>The program is started again on the file the manager left.\<close>
  "restart m = fst (ToDoListManager_init datetime_fromisoformat (task_file m))"

definition milk :: "datetime task" where
  \<comment> \<open>The task of the line \<open>1,Buy milk,False,2024-06-16T16:00:00,None\<close>.\<close>
  "milk = \<lparr>task_id = 1, description = ''Buy milk'', is_completed = False,
     creation_datetime = \<lparr>year = 2024, month = 6, day = 16, hour = 16, minute = 0, second = 0,
       microsecond = 0\<rparr>, deadline_datetime = None\<rparr>"

definition comma_task_file :: "string option" where
  \<comment> \<open>The tasks file after adding, to an empty list, a task whose description holds a
      comma.\<close>
  "comma_task_file =
     task_file (fst (add_task datetime_isoformat \<lparr>tasks = [], next_id = 1, task_file = None\<rparr>
                       ''Buy milk, eggs'' None noon))"

definition loaded_137 :: "datetime todo_manager" where
  \<comment> \<open>The manager that start-up on the file \<open>tasks_137\<close> gives.\<close>
  "loaded_137 =
     \<lparr>tasks =
        [milk,
         \<lparr>task_id = 3, description = ''Call Bob'', is_completed = True,
           creation_datetime = \<lparr>year = 2024, month = 6, day = 17, hour = 9, minute = 30,
             second = 0, microsecond = 0\<rparr>,
           deadline_datetime = Some \<lparr>year = 2024, month = 6, day = 20, hour = 12, minute = 0,
             second = 0, microsecond = 0\<rparr>\<rparr>,
         \<lparr>task_id = 7, description = ''Pay rent'', is_completed = False,
           creation_datetime = \<lparr>year = 2024, month = 6, day = 18, hour = 8, minute = 15,
             second = 0, microsecond = 250\<rparr>, deadline_datetime = None\<rparr>],
      next_id = 8, task_file = Some tasks_137\<rparr>"

definition garden_file :: string where
  \<comment> \<open>A contacts file whose only line fails three of the four field validations.\<close>
  "garden_file = ''Alice,abc,not-an-email,Garden'' @ [LF]"

definition bob_platform :: platform where
  \<comment> \<open>An empty platform after the user \<open>Bob\<close> signed up.\<close>
  "bob_platform = fst (signup fixed_digest \<lparr>users = [], users_file = None\<rparr> ''Bob'' ''secret'')"

definition zero_amount_file :: string where
  \<comment> \<open>A transactions file whose only line has the amount 0.\<close>
  "zero_amount_file = ''1001,2024-06-16T16:00:00,Income,0,Gift'' @ [LF]"

definition minus_five_file :: string where
  \<comment> \<open>A transactions file whose only line has the amount -5.\<close>
  "minus_five_file = ''1001,2024-06-16T16:00:00,Income,-5,Gift'' @ [LF]"

definition tracker_of :: "string \<Rightarrow> datetime tracker" where
  \<comment> \<open>A tracker without users or transactions in memory, on a given transactions file.\<close>
  "tracker_of content =
     \<lparr>fin_users = [], transactions = [], fin_users_file = None,
      transactions_file = Some content\<rparr>"

definition ann_tracker :: "datetime tracker" where
  \<comment> \<open>A tracker in which the account 1001 exists.\<close>
  "ann_tracker =
     \<lparr>fin_users = [(''1001'', \<lparr>account_no = ''1001'', fin_hashed_password = fixed_digest ''pw'',
                       fin_name = ''Ann'', category = ''freelancer''\<rparr>)],
      transactions = [], fin_users_file = None, transactions_file = None\<rparr>"

definition two_alices :: contact_manager where
  \<comment> \<open>\<open>alice_book\<close> after adding a second contact of the same name, up to letter case,
      and another number.\<close>
  "two_alices = fst (add_contact alice_book ''alice'' ''5559999999'' ''x@y.com'' ''Office'')"

section \<open>Properties of the text operations\<close>

lemma split_not_Nil [simp]: "split sep s \<noteq> []"
  by (induction s) (auto split: list.splits)

lemma split_no_sep: "sep \<notin> set s \<Longrightarrow> split sep s = [s]"
  by (induction s) auto

lemma split_append: "sep \<notin> set a \<Longrightarrow> split sep (a @ sep # b) = a # split sep b"
  by (induction a) auto

lemma split_parts_no_sep: "p \<in> set (split sep s) \<Longrightarrow> sep \<notin> set p"
  by (induction s arbitrary: p) (auto split: if_splits list.splits)

lemma split_hd: "split sep s = p # ps \<Longrightarrow> p \<noteq> [] \<Longrightarrow> hd p = hd s"
  by (induction s arbitrary: p ps) (auto split: if_splits list.splits)

lemma split_single_Nil: "split sep s = [[]] \<Longrightarrow> s = []"
  by (cases s) (auto split: if_splits list.splits)

lemma split_last: "last (split sep s) \<noteq> [] \<Longrightarrow> last (last (split sep s)) = last s"
proof (induction s)
  case Nil
  then show ?case by simp
next
  case (Cons c s)
  obtain w ws where w: "split sep s = w # ws"
    using split_not_Nil [of sep s] by (cases "split sep s") auto
  show ?case
  proof (cases "ws = []")
    case True
    with w have "s = [] \<or> w \<noteq> []" using split_single_Nil by blast
    with Cons w True show ?thesis by (auto split: if_splits)
  next
    case False
    with Cons w show ?thesis by (auto split: if_splits dest: split_single_Nil)
  qed
qed

lemma split_join: "split sep s = p # ps \<Longrightarrow> s = p @ concat (map (\<lambda>q. sep # q) ps)"
proof (induction s arbitrary: p ps)
  case Nil
  then show ?case by simp
next
  case (Cons c s)
  obtain w ws where w: "split sep s = w # ws"
    using split_not_Nil [of sep s] by (cases "split sep s") auto
  have js: "w @ concat (map (\<lambda>q. sep # q) ws) = s"
    using Cons.IH [OF w] by simp
  show ?case
  proof (cases "c = sep")
    case True
    with Cons.prems w have "p = []" "ps = w # ws" by simp_all
    then show ?thesis using True js by simp
  next
    case False
    with Cons.prems w have "p = c # w" "ps = ws" by simp_all
    then show ?thesis using js by simp
  qed
qed

lemma universal_newlines_id: "CR \<notin> set s \<Longrightarrow> universal_newlines s = s"
  by (induction s rule: universal_newlines.induct) auto

lemma universal_newlines_no_CR: "CR \<notin> set (universal_newlines s)"
  by (induction s rule: universal_newlines.induct) (auto simp: CR_def LF_def)

lemma split_terminated:
  "\<forall>l\<in>set ls. sep \<notin> set l \<Longrightarrow> split sep (concat (map (\<lambda>l. l @ [sep]) ls)) = ls @ [[]]"
  by (induction ls) (auto simp: split_append)

lemma file_lines_terminated:
  assumes "\<forall>l\<in>set ls. LF \<notin> set l \<and> CR \<notin> set l"
  shows "file_lines (concat (map (\<lambda>l. l @ [LF]) ls)) = ls"
proof -
  have "CR \<notin> set (concat (map (\<lambda>l. l @ [LF]) ls))"
    using assms by (auto simp: CR_def LF_def)
  then have "universal_newlines (concat (map (\<lambda>l. l @ [LF]) ls)) =
             concat (map (\<lambda>l. l @ [LF]) ls)"
    by (rule universal_newlines_id)
  moreover have "split LF (concat (map (\<lambda>l. l @ [LF]) ls)) = ls @ [[]]"
    using assms by (intro split_terminated) auto
  ultimately show ?thesis by (simp add: file_lines_def)
qed

lemma file_lines_no_breaks: "l \<in> set (file_lines s) \<Longrightarrow> LF \<notin> set l \<and> CR \<notin> set l"
proof -
  assume a: "l \<in> set (file_lines s)"
  then have "l \<in> set (split LF (universal_newlines s))"
    by (auto simp: file_lines_def Let_def dest: in_set_butlastD split: if_splits)
  moreover have "CR \<notin> set p" if "p \<in> set (split sep t)" "CR \<notin> set t" for p sep t
    using that by (induction t arbitrary: p) (auto split: if_splits list.splits)
  ultimately show ?thesis using split_parts_no_sep universal_newlines_no_CR by blast
qed

lemma dropWhile_hd_id: "xs = [] \<or> \<not> P (hd xs) \<Longrightarrow> dropWhile P xs = xs"
  by (cases xs) auto

lemma last_dropWhile: "dropWhile P xs \<noteq> [] \<Longrightarrow> last (dropWhile P xs) = last xs"
  by (induction xs) (auto split: if_splits)

lemma strip_id: "s = [] \<or> (\<not> isspace (hd s) \<and> \<not> isspace (last s)) \<Longrightarrow> strip s = s"
proof (cases "s = []")
  case True
  then show ?thesis by (simp add: strip_def)
next
  case False
  assume "s = [] \<or> (\<not> isspace (hd s) \<and> \<not> isspace (last s))"
  with False have h: "\<not> isspace (hd s)" and l: "\<not> isspace (last s)" by auto
  from h have "dropWhile isspace s = s" by (simp add: dropWhile_hd_id)
  moreover from l False have "dropWhile isspace (rev s) = rev s"
    by (simp add: dropWhile_hd_id hd_rev)
  ultimately show ?thesis by (simp add: strip_def)
qed

lemma strip_stripped:
  "strip s = [] \<or> (\<not> isspace (hd (strip s)) \<and> \<not> isspace (last (strip s)))"
proof (cases "strip s = []")
  case True
  then show ?thesis by simp
next
  case False
  define t where "t = dropWhile isspace s"
  define u where "u = dropWhile isspace (rev t)"
  have su: "strip s = rev u" by (simp add: strip_def t_def u_def)
  with False have une: "u \<noteq> []" by simp
  then have tne: "t \<noteq> []" by (auto simp: u_def)
  from une have "\<not> isspace (hd u)" unfolding u_def by (metis hd_dropWhile)
  then have a: "\<not> isspace (last (strip s))" using une by (simp add: su last_rev)
  from une have "last u = last (rev t)" unfolding u_def by (rule last_dropWhile)
  then have "last u = hd t" using tne by (simp add: last_rev)
  moreover from tne have "\<not> isspace (hd t)" unfolding t_def by (metis hd_dropWhile)
  ultimately have "\<not> isspace (hd (strip s))" using une by (simp add: su hd_rev)
  with a show ?thesis by simp
qed

lemma strip_idem: "strip (strip s) = strip s"
  using strip_stripped [of s] by (rule strip_id)

lemma set_strip: "set (strip s) \<subseteq> set s"
  by (auto simp: strip_def dest!: set_dropWhileD)

section \<open>Properties of the contact manager\<close>

lemma is_contact_duplicate_iff:
  "is_contact_duplicate cs name contact_num \<longleftrightarrow>
     (\<exists>c\<in>set cs. lower (Name c) = lower name \<and> Contact c = contact_num)"
  by (induction cs) auto

lemma alice_book_eq:
  "alice_book =
     \<lparr>contacts = [\<lparr>Name = ''Alice'', Contact = ''5551234567'', Email = ''a@b.com'',
                   Group = ''Home''\<rparr>],
      database_file = Some (''Alice,5551234567,a@b.com,Home'' @ [LF])\<rparr>"
  by code_simp

text \<open>
  C4. For a candidate whose four fields pass validation, \<open>add_contact\<close> rejects it as a
  duplicate (state unchanged, "already exists" reported) exactly when some existing contact
  has the same name up to letter case and the same contact number; otherwise the candidate
  is appended and "added" is reported.
\<close>

theorem add_contact_duplicate_iff:
  assumes "fst (validate_input ''Name'' (strip typed_name))"
    and "fst (validate_input ''Contact'' (strip typed_contact))"
    and "fst (validate_input ''Email'' (strip typed_email))"
    and "fst (validate_input ''Group'' (strip typed_group))"
  shows "((fst (add_contact m typed_name typed_contact typed_email typed_group) = m \<and>
           last (snd (add_contact m typed_name typed_contact typed_email typed_group)) =
             Already_exists (strip typed_name) (strip typed_contact))
          \<longleftrightarrow>
          (\<exists>c\<in>set (contacts m). lower (Name c) = lower (strip typed_name) \<and>
                                 Contact c = strip typed_contact)) \<and>
         ((contacts (fst (add_contact m typed_name typed_contact typed_email typed_group)) =
             contacts m @ [\<lparr>Name = strip typed_name, Contact = strip typed_contact,
                             Email = strip typed_email, Group = strip typed_group\<rparr>] \<and>
           last (snd (add_contact m typed_name typed_contact typed_email typed_group)) =
             Contact_added)
          \<longleftrightarrow>
          \<not> (\<exists>c\<in>set (contacts m). lower (Name c) = lower (strip typed_name) \<and>
                                   Contact c = strip typed_contact))"
  using assms
  by (auto simp: add_contact_def Let_def is_contact_duplicate_iff save_contacts_def
           split: prod.splits)

theorem add_contact_duplicate_witness:
  "(fst (add_contact alice_book ''alice'' ''5551234567'' ''x@y.com'' ''Office'') = alice_book \<and>
    last (snd (add_contact alice_book ''alice'' ''5551234567'' ''x@y.com'' ''Office'')) =
      Already_exists ''alice'' ''5551234567'') \<and>
   (contacts (fst (add_contact alice_book ''Alice'' ''5559999999'' ''a@b.com'' ''Home'')) =
      contacts alice_book @
        [\<lparr>Name = ''Alice'', Contact = ''5559999999'', Email = ''a@b.com'', Group = ''Home''\<rparr>] \<and>
    last (snd (add_contact alice_book ''Alice'' ''5559999999'' ''a@b.com'' ''Home'')) =
      Contact_added)"
proof -
  have v1: "fst (validate_input ''Name'' (strip ''alice''))"
    and v2: "fst (validate_input ''Contact'' (strip ''5551234567''))"
    and v3: "fst (validate_input ''Email'' (strip ''x@y.com''))"
    and v4: "fst (validate_input ''Group'' (strip ''Office''))"
    and w1: "fst (validate_input ''Name'' (strip ''Alice''))"
    and w2: "fst (validate_input ''Contact'' (strip ''5559999999''))"
    and w3: "fst (validate_input ''Email'' (strip ''a@b.com''))"
    and w4: "fst (validate_input ''Group'' (strip ''Home''))"
    by code_simp+
  have s: "strip ''alice'' = ''alice''" "strip ''5551234567'' = ''5551234567''"
    "strip ''x@y.com'' = ''x@y.com''" "strip ''Office'' = ''Office''"
    "strip ''Alice'' = ''Alice''" "strip ''5559999999'' = ''5559999999''"
    "strip ''a@b.com'' = ''a@b.com''" "strip ''Home'' = ''Home''"
    by code_simp+
  have l: "lower ''Alice'' = ''alice''" "lower ''alice'' = ''alice''"
    by code_simp+
  show ?thesis
    using add_contact_duplicate_iff [OF v1 v2 v3 v4, of alice_book]
      add_contact_duplicate_iff [OF w1 w2 w3 w4, of alice_book]
    by (simp add: s l alice_book_eq)
qed


lemma add_contact_invalid:
  "\<not> (fst (validate_input ''Name'' (strip tn)) \<and> fst (validate_input ''Contact'' (strip tc)) \<and>
      fst (validate_input ''Email'' (strip te)) \<and> fst (validate_input ''Group'' (strip tg)))
   \<Longrightarrow> fst (add_contact m tn tc te tg) = m"
  by (auto simp: add_contact_def Let_def split: prod.splits)

lemma update_field_eq:
  "update_field f v assign (c, u, out) =
     (if accepted f v then assign c else c, u \<or> accepted f v,
      out @ (if v = [] then [] else snd (validate_input f v)))"
  by (auto simp: update_field_def accepted_def split: prod.splits)

lemma update_field_Name:
  "update_field ''Name'' v (\<lambda>c. c\<lparr>Name := v\<rparr>) (c, u, out) =
     (c\<lparr>Name := pick ''Name'' v (Name c)\<rparr>, u \<or> accepted ''Name'' v,
      out @ (if v = [] then [] else snd (validate_input ''Name'' v)))"
  by (simp add: update_field_eq pick_def)

lemma update_field_Contact:
  "update_field ''Contact'' v (\<lambda>c. c\<lparr>Contact := v\<rparr>) (c, u, out) =
     (c\<lparr>Contact := pick ''Contact'' v (Contact c)\<rparr>, u \<or> accepted ''Contact'' v,
      out @ (if v = [] then [] else snd (validate_input ''Contact'' v)))"
  by (simp add: update_field_eq pick_def)

lemma update_field_Email:
  "update_field ''Email'' v (\<lambda>c. c\<lparr>Email := v\<rparr>) (c, u, out) =
     (c\<lparr>Email := pick ''Email'' v (Email c)\<rparr>, u \<or> accepted ''Email'' v,
      out @ (if v = [] then [] else snd (validate_input ''Email'' v)))"
  by (simp add: update_field_eq pick_def)

lemma update_field_Group:
  "update_field ''Group'' v (\<lambda>c. c\<lparr>Group := v\<rparr>) (c, u, out) =
     (c\<lparr>Group := pick ''Group'' v (Group c)\<rparr>, u \<or> accepted ''Group'' v,
      out @ (if v = [] then [] else snd (validate_input ''Group'' v)))"
  by (simp add: update_field_eq pick_def)

lemma updated_contact_same:
  "\<not> accepted ''Name'' n \<Longrightarrow> \<not> accepted ''Contact'' k \<Longrightarrow> \<not> accepted ''Email'' e \<Longrightarrow>
   \<not> accepted ''Group'' g \<Longrightarrow> updated_contact c n k e g = c"
  by (simp add: updated_contact_def pick_def)

lemma update_contact_found:
  assumes "find_target_index (contacts m) (strip a) (strip b) = Some i"
  shows "fst (update_contact m a b n k e g) =
           (let cs = (contacts m)
                  [i := updated_contact (contacts m ! i) (strip n) (strip k) (strip e) (strip g)]
            in if accepted ''Name'' (strip n) \<or> accepted ''Contact'' (strip k) \<or>
                  accepted ''Email'' (strip e) \<or> accepted ''Group'' (strip g)
               then \<lparr>contacts = cs, database_file = Some (concat (map contact_line cs))\<rparr>
               else m)"
proof -
  from assms have ne: "contacts m \<noteq> []" by auto
  show ?thesis using ne assms
    by (simp add: update_contact_def Let_def update_field_Name update_field_Contact
        update_field_Email update_field_Group save_contacts_def updated_contact_def [symmetric]
        updated_contact_same)
qed

lemma update_contact_nothing_accepted:
  assumes "\<not> accepted ''Name'' (strip n)" "\<not> accepted ''Contact'' (strip k)"
    "\<not> accepted ''Email'' (strip e)" "\<not> accepted ''Group'' (strip g)"
  shows "fst (update_contact m a b n k e g) = m"
proof (cases "find_target_index (contacts m) (strip a) (strip b)")
  case None
  then show ?thesis by (simp add: update_contact_def Let_def)
next
  case (Some i)
  from update_contact_found [OF Some] assms show ?thesis by (simp add: Let_def)
qed

text \<open>
  C5 (as amended). A failed validation aborts \<open>add_contact\<close>: memory and file stay as they
  were. \<open>update_contact\<close> validates field by field: a new value that fails validation is
  not applied, the new values that pass are applied and the file is rewritten; when no
  typed value passes, memory and file are both left as they were.
\<close>

theorem validation_failure_effect:
  "(\<not> (fst (validate_input ''Name'' (strip tn)) \<and> fst (validate_input ''Contact'' (strip tc)) \<and>
        fst (validate_input ''Email'' (strip te)) \<and> fst (validate_input ''Group'' (strip tg)))
      \<longrightarrow> fst (add_contact m tn tc te tg) = m) \<and>
   (\<not> accepted ''Name'' (strip n) \<and> \<not> accepted ''Contact'' (strip k) \<and>
    \<not> accepted ''Email'' (strip e) \<and> \<not> accepted ''Group'' (strip g)
      \<longrightarrow> fst (update_contact m a b n k e g) = m) \<and>
   (find_target_index (contacts m) (strip a) (strip b) = Some i
      \<longrightarrow> fst (update_contact m a b n k e g) =
           (let cs = (contacts m)
                  [i := updated_contact (contacts m ! i) (strip n) (strip k) (strip e) (strip g)]
            in if accepted ''Name'' (strip n) \<or> accepted ''Contact'' (strip k) \<or>
                  accepted ''Email'' (strip e) \<or> accepted ''Group'' (strip g)
               then \<lparr>contacts = cs, database_file = Some (concat (map contact_line cs))\<rparr>
               else m))"
  using add_contact_invalid [of tn tc te tg m] update_contact_nothing_accepted [of n k e g m a b]
    update_contact_found [of m a b i n k e g]
  by blast

theorem validation_failure_effect_witness:
  "(\<not> fst (validate_input ''Email'' (strip ''not-an-email'')) \<and>
    fst (add_contact alice_book ''Carol'' ''5550000000'' ''not-an-email'' ''Home'') = alice_book) \<and>
   (\<not> accepted ''Email'' (strip ''not-an-email'') \<and>
    fst (update_contact alice_book ''Alice'' ''5551234567'' [] [] ''not-an-email'' []) =
      alice_book) \<and>
   (find_target_index (contacts alice_book) (strip ''Alice'') (strip ''5551234567'') = Some 0 \<and>
    fst (update_contact alice_book ''Alice'' ''5551234567'' ''Bob'' [] ''not-an-email'' []) =
      \<lparr>contacts = [\<lparr>Name = ''Bob'', Contact = ''5551234567'', Email = ''a@b.com'',
                    Group = ''Home''\<rparr>],
       database_file = Some (''Bob,5551234567,a@b.com,Home'' @ [LF])\<rparr>)"
proof -
  have bad: "\<not> fst (validate_input ''Email'' (strip ''not-an-email''))"
    by code_simp
  have rej: "\<not> accepted ''Name'' (strip [])" "\<not> accepted ''Contact'' (strip [])"
    "\<not> accepted ''Email'' (strip ''not-an-email'')" "\<not> accepted ''Group'' (strip [])"
    by code_simp+
  have acc: "accepted ''Name'' (strip ''Bob'')"
    by code_simp
  have found: "find_target_index (contacts alice_book) (strip ''Alice'') (strip ''5551234567'')
                 = Some 0"
    by code_simp
  have new: "(contacts alice_book)
               [0 := updated_contact (contacts alice_book ! 0) (strip ''Bob'') (strip [])
                       (strip ''not-an-email'') (strip [])]
             = [\<lparr>Name = ''Bob'', Contact = ''5551234567'', Email = ''a@b.com'',
                  Group = ''Home''\<rparr>]"
    by code_simp
  have line: "contact_line \<lparr>Name = ''Bob'', Contact = ''5551234567'', Email = ''a@b.com'',
                  Group = ''Home''\<rparr> = ''Bob,5551234567,a@b.com,Home'' @ [LF]"
    by code_simp
  from validation_failure_effect [where tn = "''Carol''" and tc = "''5550000000''" and
      te = "''not-an-email''" and tg = "''Home''" and m = alice_book]
  have one: "fst (add_contact alice_book ''Carol'' ''5550000000'' ''not-an-email'' ''Home'')
               = alice_book"
    using bad by blast
  from validation_failure_effect [where n = "[]" and k = "[]" and e = "''not-an-email''" and
      g = "[]" and m = alice_book and a = "''Alice''" and b = "''5551234567''"]
  have two: "fst (update_contact alice_book ''Alice'' ''5551234567'' [] [] ''not-an-email'' [])
               = alice_book"
    using rej by blast
  from validation_failure_effect [where n = "''Bob''" and k = "[]" and e = "''not-an-email''" and
      g = "[]" and m = alice_book and a = "''Alice''" and b = "''5551234567''" and i = 0]
  have three: "fst (update_contact alice_book ''Alice'' ''5551234567'' ''Bob'' []
                 ''not-an-email'' []) =
               \<lparr>contacts = [\<lparr>Name = ''Bob'', Contact = ''5551234567'', Email = ''a@b.com'',
                             Group = ''Home''\<rparr>],
                database_file = Some (''Bob,5551234567,a@b.com,Home'' @ [LF])\<rparr>"
    using found acc by (simp add: Let_def new line)
  from bad rej(3) one two found three show ?thesis by blast
qed

text \<open>
  The claim as stated fails for \<open>update_contact\<close>: the new e-mail address fails validation,
  and yet the new name is applied and written to the file.
\<close>

theorem update_contact_partial_counterexample:
  "\<not> fst (validate_input ''Email'' (strip ''not-an-email'')) \<and>
   fst (update_contact alice_book ''Alice'' ''5551234567'' ''Bob'' [] ''not-an-email'' []) \<noteq>
     alice_book"
  by code_simp

lemma add_contact_no_duplicates:
  "no_duplicates (contacts m) \<Longrightarrow> no_duplicates (contacts (fst (add_contact m n k e g)))"
  by (auto simp: add_contact_def Let_def no_duplicates_def is_contact_duplicate_iff
      save_contacts_def split: prod.splits)

lemma delete_contact_no_duplicates:
  "no_duplicates (contacts m) \<Longrightarrow> no_duplicates (contacts (fst (delete_contact m n k)))"
  by (auto simp: delete_contact_def Let_def no_duplicates_def save_contacts_def
      distinct_map_filter)

lemma find_target_index_Some:
  "find_target_index cs a b = Some i \<Longrightarrow> i < length cs"
  by (induction cs arbitrary: i) (auto split: if_splits)

lemma distinct_map_update:
  assumes "i < length xs" "distinct (map f xs)"
  shows "distinct (map f (xs[i := y])) \<longleftrightarrow> f y \<notin> f ` set (take i xs @ drop (Suc i) xs)"
proof -
  from assms(2) id_take_nth_drop [OF assms(1)]
  have "distinct (map f (take i xs @ xs ! i # drop (Suc i) xs))"
    by simp
  then show ?thesis
    by (auto simp: upd_conv_take_nth_drop [OF assms(1)])
qed

lemma is_contact_duplicate_key:
  "is_contact_duplicate cs (Name c) (Contact c) \<longleftrightarrow>
     (lower (Name c), Contact c) \<in> (\<lambda>x. (lower (Name x), Contact x)) ` set cs"
  unfolding is_contact_duplicate_iff image_iff by (simp add: prod_eq_iff) metis

lemma update_contact_contacts:
  assumes "find_target_index (contacts m) (strip a) (strip b) = Some i"
  shows "contacts (fst (update_contact m a b n k e g)) =
           (contacts m)
             [i := updated_contact (contacts m ! i) (strip n) (strip k) (strip e) (strip g)]"
proof (cases "accepted ''Name'' (strip n) \<or> accepted ''Contact'' (strip k) \<or>
              accepted ''Email'' (strip e) \<or> accepted ''Group'' (strip g)")
  case True
  with update_contact_found [OF assms] show ?thesis by (simp add: Let_def)
next
  case False
  with update_contact_found [OF assms] show ?thesis
    by (simp add: Let_def updated_contact_same)
qed

lemma update_contact_no_duplicates_iff:
  assumes "no_duplicates (contacts m)"
  shows "no_duplicates (contacts (fst (update_contact m a b n k e g))) \<longleftrightarrow>
         \<not> update_collides m a b n k"
proof (cases "find_target_index (contacts m) (strip a) (strip b)")
  case None
  then have "fst (update_contact m a b n k e g) = m"
    by (simp add: update_contact_def Let_def)
  with None assms show ?thesis by (simp add: update_collides_def)
next
  case (Some i)
  let ?key = "\<lambda>c. (lower (Name c), Contact c)"
  let ?c = "updated_contact (contacts m ! i) (strip n) (strip k) (strip e) (strip g)"
  let ?others = "take i (contacts m) @ drop (Suc i) (contacts m)"
  from find_target_index_Some [OF Some] have i: "i < length (contacts m)" .
  from assms have d: "distinct (map ?key (contacts m))"
    by (simp add: no_duplicates_def)
  have "no_duplicates (contacts (fst (update_contact m a b n k e g))) \<longleftrightarrow>
        ?key ?c \<notin> ?key ` set ?others"
    unfolding no_duplicates_def update_contact_contacts [OF Some]
    by (rule distinct_map_update [OF i d])
  also have "\<dots> \<longleftrightarrow> \<not> is_contact_duplicate ?others (Name ?c) (Contact ?c)"
    by (simp only: is_contact_duplicate_key)
  also have "\<dots> \<longleftrightarrow> \<not> update_collides m a b n k"
    by (simp add: update_collides_def Some updated_contact_def)
  finally show ?thesis .
qed

lemma run_contact_ops_collision_free:
  "no_duplicates (contacts m) \<Longrightarrow> collision_free m ops \<Longrightarrow>
   no_duplicates (contacts (run_contact_ops m ops))"
proof (induction ops arbitrary: m)
  case Nil
  then show ?case by simp
next
  case (Cons op ops)
  then show ?case
    by (cases op)
       (simp_all add: add_contact_no_duplicates delete_contact_no_duplicates
          update_contact_no_duplicates_iff)
qed

text \<open>
  C8 (as amended). A contact list without two contacts of the same name (up to letter
  case) and number stays so through any sequence of \<open>add_contact\<close>, \<open>delete_contact\<close> and
  \<open>update_contact\<close> in which no update gives the contact it finds the name and number of
  another contact. \<open>update_contact\<close> does not make the test that \<open>add_contact\<close> makes: on a
  list without duplicates it leaves one exactly when the new name and number are those of
  another contact. Nothing is promised for \<open>_load_contacts\<close>, which admits the lines of the
  file as they are.
\<close>

theorem run_contact_ops_no_duplicates:
  "(no_duplicates (contacts m) \<and> collision_free m ops \<longrightarrow>
      no_duplicates (contacts (run_contact_ops m ops))) \<and>
   (no_duplicates (contacts m) \<longrightarrow>
      (no_duplicates (contacts (fst (update_contact m a b n k e g))) \<longleftrightarrow>
       \<not> update_collides m a b n k))"
  using run_contact_ops_collision_free [of m ops]
    update_contact_no_duplicates_iff [of m a b n k e g]
  by blast

lemma two_alices_eq:
  "two_alices =
     \<lparr>contacts = [\<lparr>Name = ''Alice'', Contact = ''5551234567'', Email = ''a@b.com'',
                   Group = ''Home''\<rparr>,
                 \<lparr>Name = ''alice'', Contact = ''5559999999'', Email = ''x@y.com'',
                   Group = ''Office''\<rparr>],
      database_file = Some (''Alice,5551234567,a@b.com,Home'' @ [LF] @
                            ''alice,5559999999,x@y.com,Office'' @ [LF])\<rparr>"
  by code_simp

theorem run_contact_ops_no_duplicates_witness:
  "no_duplicates (contacts alice_book) \<and>
   no_duplicates (contacts (run_contact_ops alice_book
     [Add ''alice'' ''5551234567'' ''x@y.com'' ''Office'',
      Add ''Bob'' ''5559999999'' ''b@c.org'' ''Office'',
      Update ''bob'' ''5559999999'' ''Robert'' [] [] ''Home'',
      Delete ''ALICE'' ''5551234567''])) \<and>
   update_collides two_alices ''alice'' ''5559999999'' [] ''5551234567'' \<and>
   \<not> no_duplicates (contacts (fst (update_contact two_alices ''alice'' ''5559999999''
         [] ''5551234567'' [] [])))"
proof -
  let ?ops = "[Add ''alice'' ''5551234567'' ''x@y.com'' ''Office'',
      Add ''Bob'' ''5559999999'' ''b@c.org'' ''Office'',
      Update ''bob'' ''5559999999'' ''Robert'' [] [] ''Home'',
      Delete ''ALICE'' ''5551234567'']"
  have h: "no_duplicates (contacts alice_book)"
    and f: "collision_free alice_book ?ops"
    and h2: "no_duplicates (contacts two_alices)"
    and c: "update_collides two_alices ''alice'' ''5559999999'' [] ''5551234567''"
    by code_simp+
  note t = run_contact_ops_no_duplicates [where m = alice_book and ops = ?ops]
  note u = run_contact_ops_no_duplicates [where m = two_alices and a = "''alice''" and
      b = "''5559999999''" and n = "[]" and k = "''5551234567''" and e = "[]" and g = "[]"]
  from t h f have one: "no_duplicates (contacts (run_contact_ops alice_book ?ops))"
    by blast
  from u h2 c have two: "\<not> no_duplicates (contacts (fst (update_contact two_alices ''alice''
      ''5559999999'' [] ''5551234567'' [] [])))"
    by blast
  from h one c two show ?thesis by blast
qed

text \<open>
  The claim as stated fails at load and at update: a file with two lines for the same
  name (up to case) and number is loaded as two live contacts, and \<open>update_contact\<close>
  gives the second of two distinct contacts the number of the first, whose name it has up
  to letter case.
\<close>

theorem load_contacts_duplicates_counterexample:
  "\<not> no_duplicates
       (contacts (fst (load_contacts \<lparr>contacts = [], database_file = Some twice_alice\<rparr>))) \<and>
   no_duplicates (contacts two_alices) \<and>
   \<not> no_duplicates
       (contacts (fst (update_contact two_alices ''alice'' ''5559999999''
          [] ''5551234567'' [] [])))"
  by code_simp


section \<open>Properties of the contact loader\<close>

lemma contact_line_text: "contact_line c = contact_text c @ [LF]"
  by (simp add: contact_line_def contact_text_def)

lemma no_delimiter_iff:
  "no_delimiter f \<longleftrightarrow> CHR '','' \<notin> set f \<and> LF \<notin> set f \<and> CR \<notin> set f"
  by (auto simp: no_delimiter_def list_all_iff)

lemma comma_not_space: "\<not> isspace (CHR '','')"
  by (simp add: isspace_def code_point_def)

lemma storable_text:
  assumes "storable c"
  shows "strip (contact_text c) = contact_text c"
    and "contact_text c \<noteq> []"
    and "split (CHR '','') (contact_text c) = [Name c, Contact c, Email c, Group c]"
    and "LF \<notin> set (contact_text c) \<and> CR \<notin> set (contact_text c)"
proof -
  have h: "\<not> isspace (hd (contact_text c))"
    using assms by (cases "Name c") (auto simp: storable_def contact_text_def comma_not_space)
  have l: "\<not> isspace (last (contact_text c))"
    using assms by (cases "Group c" rule: rev_cases)
      (auto simp: storable_def contact_text_def comma_not_space)
  from h l show "strip (contact_text c) = contact_text c" by (simp add: strip_id)
  show "contact_text c \<noteq> []" by (simp add: contact_text_def)
  show "split (CHR '','') (contact_text c) = [Name c, Contact c, Email c, Group c]"
    using assms
    by (simp add: storable_def no_delimiter_iff contact_text_def split_append split_no_sep)
  show "LF \<notin> set (contact_text c) \<and> CR \<notin> set (contact_text c)"
    using assms by (auto simp: storable_def no_delimiter_iff contact_text_def LF_def CR_def)
qed

lemma load_storable_lines:
  "\<forall>c\<in>set cs. storable c \<Longrightarrow> load_contact_lines k (map contact_text cs) = (cs, [])"
proof (induction cs arbitrary: k)
  case Nil
  then show ?case by simp
next
  case (Cons c cs)
  then have "storable c" by simp
  note t = storable_text [OF this]
  from Cons have "load_contact_lines (Suc k) (map contact_text cs) = (cs, [])" by simp
  then show ?case by (simp add: t)
qed

lemma load_after_save:
  assumes "\<forall>c\<in>set (contacts m). storable c"
  shows "fst (load_contacts (save_contacts m)) = save_contacts m"
proof -
  have "concat (map contact_line (contacts m)) =
        concat (map (\<lambda>l. l @ [LF]) (map contact_text (contacts m)))"
    by (simp add: contact_line_text [abs_def] comp_def)
  moreover have "file_lines (concat (map (\<lambda>l. l @ [LF]) (map contact_text (contacts m)))) =
        map contact_text (contacts m)"
    using assms by (intro file_lines_terminated) (auto dest: storable_text(4))
  ultimately show ?thesis
    using load_storable_lines [OF assms, of 1]
    by (simp add: load_contacts_def save_contacts_def)
qed

lemma split_four_storable:
  assumes "split (CHR '','') (strip l) = [a, b, c, d]" and "LF \<notin> set l" and "CR \<notin> set l"
  shows "storable \<lparr>Name = a, Contact = b, Email = c, Group = d\<rparr>"
    and "contact_text \<lparr>Name = a, Contact = b, Email = c, Group = d\<rparr> = strip l"
proof -
  have parts: "p \<in> {a, b, c, d} \<Longrightarrow> CHR '','' \<notin> set p" for p
    using split_parts_no_sep [of p "CHR '',''" "strip l"] assms(1) by auto
  from split_join [OF assms(1)] have j: "strip l = a @ '','' @ b @ '','' @ c @ '','' @ d"
    by simp
  then show "contact_text \<lparr>Name = a, Contact = b, Email = c, Group = d\<rparr> = strip l"
    by (simp add: contact_text_def)
  have sub: "set a \<union> set b \<union> set c \<union> set d \<subseteq> set l"
    using set_strip [of l] by (auto simp: j)
  have ne: "strip l \<noteq> []" using j by simp
  with strip_stripped [of l]
  have hl: "\<not> isspace (hd (strip l))" "\<not> isspace (last (strip l))" by auto
  have "a = [] \<or> \<not> isspace (hd a)"
    using split_hd [OF assms(1)] hl(1) by auto
  moreover have "d = [] \<or> \<not> isspace (last d)"
    using split_last [of "CHR '',''" "strip l"] hl(2) by (auto simp: assms(1))
  ultimately show "storable \<lparr>Name = a, Contact = b, Email = c, Group = d\<rparr>"
    using parts sub assms(2,3) by (auto simp: storable_def no_delimiter_iff)
qed

lemma loaded_lines_storable:
  "\<forall>l\<in>set ls. LF \<notin> set l \<and> CR \<notin> set l \<Longrightarrow>
   load_contact_lines k ls = (cs, ws) \<Longrightarrow> c \<in> set cs \<Longrightarrow> storable c"
proof (induction ls arbitrary: k cs ws)
  case Nil
  then show ?case by simp
next
  case (Cons l ls)
  then show ?case
    by (auto simp: Let_def split_four_storable(1) split: prod.splits list.splits if_splits)
qed

lemma loaded_storable: "c \<in> set (contacts (fst (load_contacts m))) \<Longrightarrow> storable c"
  using loaded_lines_storable [of "file_lines content" 1 _ _ c for content] file_lines_no_breaks
  by (auto simp: load_contacts_def split: option.splits prod.splits)




















lemma issued_append: "issued (xs @ ys) = issued xs @ issued ys"
  by (induction xs rule: issued.induct) auto

lemma counting_from_Cons: "i # counting_from (i + 1) n = counting_from i (Suc n)"
proof -
  have "map (\<lambda>k. i + int k) [0..<Suc n] = (i + int 0) # map (\<lambda>k. i + int k) (map Suc [0..<n])"
    by (simp only: map_Suc_upt upt_conv_Cons [of 0 "Suc n"]) simp
  then show ?thesis by (simp add: counting_from_def comp_def add.assoc)
qed

lemma add_task_issued:
  "add_task isoformat m d dl now = (m1, out1) \<Longrightarrow>
   (issued out1 = [] \<and> next_id m1 = next_id m) \<or>
   (issued out1 = [next_id m] \<and> next_id m1 = next_id m + 1)"
  by (auto simp: add_task_def Let_def save_tasks_def Task_init_def split: if_splits option.splits)

lemma remove_task_issued:
  "remove_task aware isoformat m typed_id = Some (m1, out1) \<Longrightarrow>
   issued out1 = [] \<and> next_id m1 = next_id m"
  by (auto simp: remove_task_def Let_def save_tasks_def split: if_splits option.splits)

lemma remove_task_raises:
  "tasks m \<noteq> [] \<Longrightarrow> list_ex (str_raises aware) (tasks m) \<Longrightarrow>
   remove_task aware isoformat m typed_id = None"
  by (simp add: remove_task_def view_all_tasks_raises_def)

lemma run_todo_ops_issued:
  "run_todo_ops aware isoformat m ops = (m', out) \<Longrightarrow>
   issued out = counting_from (next_id m) (length (issued out)) \<and>
   next_id m' = next_id m + int (length (issued out))"
proof (induction ops arbitrary: m m' out)
  case Nil
  then show ?case by (simp add: counting_from_def)
next
  case (Cons op ops)
  show ?case
  proof (cases op)
    case (Add_task d dl now)
    obtain m1 out1 where a: "add_task isoformat m d dl now = (m1, out1)"
      by (cases "add_task isoformat m d dl now")
    obtain m2 out2 where r: "run_todo_ops aware isoformat m1 ops = (m2, out2)"
      by (cases "run_todo_ops aware isoformat m1 ops")
    from Cons.prems Add_task a r have e: "m' = m2" "out = out1 @ out2" by simp_all
    from Cons.IH [OF r] have ih: "issued out2 = counting_from (next_id m1) (length (issued out2))"
      "next_id m2 = next_id m1 + int (length (issued out2))" by simp_all
    from add_task_issued [OF a] show ?thesis
    proof
      assume "issued out1 = [] \<and> next_id m1 = next_id m"
      with ih e show ?thesis by (simp add: issued_append)
    next
      assume s: "issued out1 = [next_id m] \<and> next_id m1 = next_id m + 1"
      then have "issued out = next_id m # counting_from (next_id m + 1) (length (issued out2))"
        using ih(1) e by (simp add: issued_append)
      then have "issued out = counting_from (next_id m) (Suc (length (issued out2)))"
        by (simp only: counting_from_Cons)
      moreover have "length (issued out) = Suc (length (issued out2))"
        using s e by (simp add: issued_append)
      ultimately show ?thesis using ih(2) s e by simp
    qed
  next
    case (Remove_task typed_id)
    show ?thesis
    proof (cases "remove_task aware isoformat m typed_id")
      case None
      with Cons.prems Remove_task have "m' = m" "out = [Uncaught_TypeError]" by simp_all
      then show ?thesis by (simp add: counting_from_def)
    next
      case (Some removed)
      then obtain m1 out1 where a: "remove_task aware isoformat m typed_id = Some (m1, out1)"
        by (cases removed) simp
      obtain m2 out2 where r: "run_todo_ops aware isoformat m1 ops = (m2, out2)"
        by (cases "run_todo_ops aware isoformat m1 ops")
      from Cons.prems Remove_task a r have e: "m' = m2" "out = out1 @ out2" by simp_all
      from Cons.IH [OF r] remove_task_issued [OF a] e show ?thesis
        by (simp add: issued_append)
    qed
  qed
qed

lemma parse_task_parts_pos: "parse_task_parts f parts = Some t \<Longrightarrow> 0 < task_id t"
  by (auto simp: parse_task_parts_def Task_init_def split: list.splits option.splits if_splits)

lemma load_task_lines_max:
  "load_task_lines f k mx ls = (ts, fm, ws) \<Longrightarrow>
   fm = Max (insert mx (task_id ` set ts)) \<and> (\<forall>t\<in>set ts. 0 < task_id t)"
proof (induction ls arbitrary: k mx ts fm ws)
  case Nil
  then show ?case by simp
next
  case (Cons l ls)
  show ?case
  proof (cases "strip l \<noteq> [] \<and> length (split_max (CHR '','') 4 (strip l)) = 5 \<and>
                parse_task_parts f (split_max (CHR '','') 4 (strip l)) \<noteq> None")
    case True
    then obtain t where t: "parse_task_parts f (split_max (CHR '','') 4 (strip l)) = Some t"
      by auto
    with Cons.prems True obtain ts' where
      r: "load_task_lines f (Suc k) (if task_id t > mx then task_id t else mx) ls = (ts', fm, ws)"
      and e: "ts = t # ts'"
      by (auto simp: Let_def split: prod.splits)
    from Cons.IH [OF r] have ih: "fm = Max (insert (if task_id t > mx then task_id t else mx)
        (task_id ` set ts'))" "\<forall>t\<in>set ts'. 0 < task_id t" by simp_all
    have "Max (insert (if task_id t > mx then task_id t else mx) (task_id ` set ts')) =
          Max (insert mx (insert (task_id t) (task_id ` set ts')))"
      by (cases "task_id ` set ts' = {}") (auto simp: max_def)
    with ih e parse_task_parts_pos [OF t] show ?thesis by simp
  next
    case False
    with Cons.prems obtain w where "load_task_lines f (Suc k) mx ls = (ts, fm, w)"
      by (auto simp: Let_def split: prod.splits option.splits if_splits)
    from Cons.IH [OF this] show ?thesis .
  qed
qed

lemma init_next_id:
  "next_id (fst (ToDoListManager_init f stored)) =
     (if tasks (fst (ToDoListManager_init f stored)) = [] then 1
      else Max (task_id ` set (tasks (fst (ToDoListManager_init f stored)))) + 1)"
proof (cases "stored = None \<or> stored = Some []")
  case True
  then show ?thesis by (auto simp: ToDoListManager_init_def load_tasks_def)
next
  case False
  then obtain content where c: "stored = Some content" "content \<noteq> []" by auto
  obtain ts fm ws where r: "load_task_lines f 1 0 (file_lines content) = (ts, fm, ws)"
    by (cases "load_task_lines f 1 0 (file_lines content)")
  from load_task_lines_max [OF r] have m: "fm = Max (insert 0 (task_id ` set ts))"
    and p: "\<forall>t\<in>set ts. 0 < task_id t" by simp_all
  have "ts \<noteq> [] \<Longrightarrow> Max (insert 0 (task_id ` set ts)) = Max (task_id ` set ts)"
  proof -
    assume ne: "ts \<noteq> []"
    then have "0 < task_id (hd ts)" using p by simp
    moreover have "task_id (hd ts) \<le> Max (task_id ` set ts)" using ne by simp
    ultimately have "0 \<le> Max (task_id ` set ts)" by linarith
    then show ?thesis using ne by (simp add: max_def)
  qed
  with m c r show ?thesis
    by (auto simp: ToDoListManager_init_def load_tasks_def)
qed

lemma init_ids_below:
  "\<forall>t\<in>set (tasks (fst (ToDoListManager_init f stored))).
     task_id t < next_id (fst (ToDoListManager_init f stored))"
proof
  fix t
  assume t: "t \<in> set (tasks (fst (ToDoListManager_init f stored)))"
  then have "task_id t \<le> Max (task_id ` set (tasks (fst (ToDoListManager_init f stored))))"
    by simp
  moreover from t have "tasks (fst (ToDoListManager_init f stored)) \<noteq> []" by auto
  ultimately show "task_id t < next_id (fst (ToDoListManager_init f stored))"
    using init_next_id [of f stored] by simp
qed

text \<open>
  C3 (as amended). After start-up the next-id counter is one greater than the greatest id
  loaded, and 1 when no task was loaded, so it is above every loaded id. Within one run of
  the program the ids that \<open>add_task\<close> issues are the counter's values in order (counter,
  counter + 1, ...), whatever is removed in between, and also when the run ends on the
  \<open>TypeError\<close> of a listing: an id issued or loaded in this run is not issued again in it.
\<close>

theorem next_id_after_load:
  "next_id (fst (ToDoListManager_init f stored)) =
     (if tasks (fst (ToDoListManager_init f stored)) = [] then 1
      else Max (task_id ` set (tasks (fst (ToDoListManager_init f stored)))) + 1) \<and>
   (\<forall>t\<in>set (tasks (fst (ToDoListManager_init f stored))).
      task_id t < next_id (fst (ToDoListManager_init f stored))) \<and>
   issued (snd (run_todo_ops aware isoformat (fst (ToDoListManager_init f stored)) ops)) =
     counting_from (next_id (fst (ToDoListManager_init f stored)))
       (length (issued (snd (run_todo_ops aware isoformat (fst (ToDoListManager_init f stored))
          ops)))) \<and>
   next_id (fst (run_todo_ops aware isoformat (fst (ToDoListManager_init f stored)) ops)) =
     next_id (fst (ToDoListManager_init f stored)) +
     int (length (issued (snd (run_todo_ops aware isoformat (fst (ToDoListManager_init f stored))
        ops))))"
  using init_next_id [of f stored] init_ids_below [of f stored]
    run_todo_ops_issued [of aware isoformat "fst (ToDoListManager_init f stored)" ops
      "fst (run_todo_ops aware isoformat (fst (ToDoListManager_init f stored)) ops)"
      "snd (run_todo_ops aware isoformat (fst (ToDoListManager_init f stored)) ops)"]
  by simp

section \<open>Evaluating the to-do list on concrete inputs\<close>

lemmas text_defs = code_point_def isspace_def strip_def lower_char_def lower_def isdigit_char_def
  isdigit_def LF_def CR_def file_lines_def is_ascii_digit_def digits_value_def int_literal_ok_def
  py_int_def digit_char_def str_int_def str_bool_def Let_def

lemmas todo_defs = add_task_def remove_task_def view_all_tasks_raises_def str_raises_def
  datetime_aware_def save_tasks_def to_file_format_def Task_init_def datetime_isoformat_def
  zero_pad_def

lemma isoformat_noon: "datetime_isoformat noon = ''2024-07-01T12:00:00''"
  by (simp add: datetime_isoformat_def noon_def zero_pad_def text_defs)

lemma comma_task_file_eq:
  "comma_task_file = Some (''1,Buy milk, eggs,False,2024-07-01T12:00:00,None'' @ [LF])"
  by (simp add: comma_task_file_def noon_def todo_defs text_defs)

lemma init_comma_line:
  "ToDoListManager_init datetime_fromisoformat
     (Some (''1,Buy milk, eggs,False,2024-07-01T12:00:00,None'' @ [LF])) =
     (\<lparr>tasks = [], next_id = 1,
       task_file = Some (''1,Buy milk, eggs,False,2024-07-01T12:00:00,None'' @ [LF])\<rparr>,
      [Skipping_task_line 1 ''1,Buy milk, eggs,False,2024-07-01T12:00:00,None'', Tasks_loaded 1])"
  by code_simp

text \<open>
  C7. The claim fails on the code. \<open>add_task\<close> accepts the description "Buy milk, eggs"
  and writes it as is; at the next start-up \<open>line.split(',', 4)\<close> cuts the line at its
  first four commas, so the description is cut in two, the completed flag is read from the
  rest of the description, \<open>fromisoformat\<close> is applied to \<open>False\<close>, and the line is
  skipped with a warning: the task is lost.
\<close>

theorem comma_description_lost:
  "comma_task_file = Some (''1,Buy milk, eggs,False,2024-07-01T12:00:00,None'' @ [LF]) \<and>
   ToDoListManager_init datetime_fromisoformat comma_task_file =
     (\<lparr>tasks = [], next_id = 1, task_file = comma_task_file\<rparr>,
      [Skipping_task_line 1 ''1,Buy milk, eggs,False,2024-07-01T12:00:00,None'', Tasks_loaded 1])"
  by (simp only: comma_task_file_eq init_comma_line simp_thms)

lemma restart_tasks_12:
  "restart \<lparr>tasks = [], next_id = 1, task_file = Some tasks_12\<rparr> =
     \<lparr>tasks = [milk,
        \<lparr>task_id = 2, description = ''Call Bob'', is_completed = False,
          creation_datetime = \<lparr>year = 2024, month = 6, day = 17, hour = 9, minute = 30,
            second = 0, microsecond = 0\<rparr>, deadline_datetime = None\<rparr>],
      next_id = 3, task_file = Some tasks_12\<rparr>"
  by code_simp

lemma remove_2:
  "remove_task datetime_aware datetime_isoformat
     \<lparr>tasks = [milk,
        \<lparr>task_id = 2, description = ''Call Bob'', is_completed = False,
          creation_datetime = \<lparr>year = 2024, month = 6, day = 17, hour = 9, minute = 30,
            second = 0, microsecond = 0\<rparr>, deadline_datetime = None\<rparr>],
      next_id = 3, task_file = Some tasks_12\<rparr> ''2'' =
   Some (\<lparr>tasks = [milk], next_id = 3,
           task_file = Some (''1,Buy milk,False,2024-06-16T16:00:00,None'' @ [LF])\<rparr>,
         [Task_removed 2])"
  by (simp add: milk_def todo_defs text_defs)

lemma restart_milk:
  "restart \<lparr>tasks = [milk], next_id = 3,
     task_file = Some (''1,Buy milk,False,2024-06-16T16:00:00,None'' @ [LF])\<rparr> =
   \<lparr>tasks = [milk], next_id = 2,
     task_file = Some (''1,Buy milk,False,2024-06-16T16:00:00,None'' @ [LF])\<rparr>"
  by code_simp

lemma add_after_restart:
  "snd (add_task datetime_isoformat \<lparr>tasks = [milk], next_id = 2,
     task_file = Some (''1,Buy milk,False,2024-06-16T16:00:00,None'' @ [LF])\<rparr>
     ''Write report'' None noon) = [Task_added ''Write report'' 2]"
  by (simp add: add_task_def Task_init_def text_defs)

text \<open>
  The claim as stated fails across a restart: with tasks 1 and 2 loaded, removing task 2
  and starting the program again sets the counter to 2, and the next task added gets the
  id 2, which had been issued before.
\<close>

theorem id_reused_after_restart_counterexample:
  "map task_id (tasks (restart \<lparr>tasks = [], next_id = 1, task_file = Some tasks_12\<rparr>)) = [1, 2] \<and>
   map_option snd (remove_task datetime_aware datetime_isoformat
      (restart \<lparr>tasks = [], next_id = 1, task_file = Some tasks_12\<rparr>) ''2'') =
     Some [Task_removed 2] \<and>
   snd (add_task datetime_isoformat
          (restart (fst (the (remove_task datetime_aware datetime_isoformat
             (restart \<lparr>tasks = [], next_id = 1, task_file = Some tasks_12\<rparr>) ''2''))))
          ''Write report'' None noon) = [Task_added ''Write report'' 2]"
  by (simp only: restart_tasks_12 remove_2 option.sel option.map fst_conv snd_conv restart_milk
      add_after_restart, simp add: milk_def)

lemma init_137: "fst (ToDoListManager_init datetime_fromisoformat (Some tasks_137)) = loaded_137"
  by code_simp

lemma run_137:
  "issued (snd (run_todo_ops datetime_aware datetime_isoformat loaded_137
     [Add_task ''Water plants'' None noon, Remove_task ''8'', Add_task ''Walk dog'' None noon]))
   = [8, 9]"
  by (simp add: loaded_137_def milk_def noon_def todo_defs text_defs)

theorem next_id_after_load_witness:
  "map task_id (tasks (fst (ToDoListManager_init datetime_fromisoformat (Some tasks_137)))) =
     [1, 3, 7] \<and>
   next_id (fst (ToDoListManager_init datetime_fromisoformat (Some tasks_137))) = 8 \<and>
   next_id (fst (ToDoListManager_init datetime_fromisoformat None)) = 1 \<and>
   issued (snd (run_todo_ops datetime_aware datetime_isoformat
     (fst (ToDoListManager_init datetime_fromisoformat (Some tasks_137)))
     [Add_task ''Water plants'' None noon, Remove_task ''8'', Add_task ''Walk dog'' None noon]))
     = counting_from 8 2"
proof -
  let ?m = "fst (ToDoListManager_init datetime_fromisoformat (Some tasks_137))"
  let ?e = "fst (ToDoListManager_init datetime_fromisoformat None) :: datetime todo_manager"
  let ?ops = "[Add_task ''Water plants'' None noon, Remove_task ''8'',
               Add_task ''Walk dog'' None noon]"
  have ids: "map task_id (tasks ?m) = [1, 3, 7]"
    by (simp add: init_137 loaded_137_def milk_def)
  then have ne: "tasks ?m \<noteq> []" by auto
  have "task_id ` set (tasks ?m) = set (map task_id (tasks ?m))" by simp
  then have mx: "Max (task_id ` set (tasks ?m)) = 7" by (simp only: ids) simp
  have em: "tasks ?e = []"
    by (simp add: ToDoListManager_init_def load_tasks_def)
  have len: "length (issued (snd (run_todo_ops datetime_aware datetime_isoformat ?m ?ops))) = 2"
    by (simp only: init_137 run_137) simp
  note t = next_id_after_load [of datetime_fromisoformat "Some tasks_137" datetime_aware
      datetime_isoformat ?ops]
  from t ne mx have n: "next_id ?m = 8" by simp
  from next_id_after_load [of datetime_fromisoformat None datetime_aware datetime_isoformat "[]"] em
  have n1: "next_id ?e = 1" by simp
  from t have "issued (snd (run_todo_ops datetime_aware datetime_isoformat ?m ?ops)) =
      counting_from (next_id ?m) (length (issued (snd (run_todo_ops datetime_aware datetime_isoformat ?m ?ops))))"
    by blast
  then have "issued (snd (run_todo_ops datetime_aware datetime_isoformat ?m ?ops)) = counting_from 8 2"
    by (simp only: n len)
  then show ?thesis using ids n n1 by simp
qed

section \<open>Properties of the loaders' validation\<close>

lemma load_contact_line_admitted:
  "strip l \<noteq> [] \<Longrightarrow> split (CHR '','') (strip l) = [a, b, c, d] \<Longrightarrow>
   load_contact_lines k [l] = ([\<lparr>Name = a, Contact = b, Email = c, Group = d\<rparr>], [])"
  by (simp add: Let_def)

lemma load_user_line_skipped:
  "strip l \<noteq> [] \<Longrightarrow> split_max (CHR '':'') 3 (strip l) = [a, h, n, c] \<Longrightarrow>
   c \<notin> set VALID_CATEGORIES \<Longrightarrow> load_user_lines k acc [l] = (acc, [Invalid_category k c a])"
  by (simp add: Let_def)

lemma update_all: "list_all P al \<Longrightarrow> P (k, v) \<Longrightarrow> list_all P (AList.update k v al)"
  by (induction al) auto

lemma load_user_lines_valid:
  "list_all valid_category acc \<Longrightarrow> load_user_lines k acc ls = (us, ws) \<Longrightarrow>
   list_all valid_category us"
proof (induction ls arbitrary: k acc us ws)
  case Nil
  then show ?case by simp
next
  case (Cons l ls)
  show ?case
  proof (cases "strip l = []")
    case True
    with Cons show ?thesis by (simp add: Let_def)
  next
    case False
    show ?thesis
    proof (cases "\<exists>a h n c. split_max (CHR '':'') 3 (strip l) = [a, h, n, c] \<and>
                    c \<in> set VALID_CATEGORIES")
      case True
      then obtain a h n c where s: "split_max (CHR '':'') 3 (strip l) = [a, h, n, c]"
        and v: "c \<in> set VALID_CATEGORIES" by blast
      let ?u = "\<lparr>account_no = a, fin_hashed_password = h, fin_name = n, category = c\<rparr>"
      have "valid_category (a, ?u)"
        using v by (simp add: valid_category_def)
      with Cons.prems(1) have "list_all valid_category (AList.update a ?u acc)"
        by (rule update_all)
      moreover have "load_user_lines (Suc k) (AList.update a ?u acc) ls = (us, ws)"
        using Cons.prems(2) False s v by (simp add: Let_def)
      ultimately show ?thesis by (rule Cons.IH)
    next
      case no: False
      then obtain ws' where "load_user_lines (Suc k) acc ls = (us, ws')"
        using Cons.prems(2) False
        by (auto simp: Let_def split: list.splits if_splits prod.splits)
      with Cons.prems(1) show ?thesis by (rule Cons.IH)
    qed
  qed
qed

lemma load_users_valid: "list_all valid_category (fin_users (fst (load_users m)))"
proof -
  have "list_all valid_category us" if "load_user_lines 1 [] ls = (us, ws)" for ls us ws
    using load_user_lines_valid [OF _ that] by simp
  then show ?thesis
    by (auto simp: load_users_def split: option.splits prod.splits)
qed

text \<open>
  C9 (as amended). \<open>_load_contacts\<close> performs no field validation: every line of exactly
  four comma-separated fields is admitted with its fields as they are. The finance
  \<open>_load_users\<close> checks the category of a four-part line against the allowed set and skips
  the line with a warning when it is outside; every user it loads has an allowed category.
\<close>

theorem loaders_validation:
  "(strip l \<noteq> [] \<and> split (CHR '','') (strip l) = [a, b, c, d] \<longrightarrow>
      load_contact_lines k [l] = ([\<lparr>Name = a, Contact = b, Email = c, Group = d\<rparr>], [])) \<and>
   (strip ul \<noteq> [] \<and> split_max (CHR '':'') 3 (strip ul) = [acct, h, n, cat] \<and>
    cat \<notin> set VALID_CATEGORIES \<longrightarrow>
      load_user_lines k acc [ul] = (acc, [Invalid_category k cat acct])) \<and>
   list_all valid_category (fin_users (fst (load_users m)))"
  using load_contact_line_admitted [of l a b c d k] load_user_line_skipped [of ul acct h n cat k acc]
    load_users_valid [of m]
  by blast

theorem loaders_validation_witness:
  "(\<not> fst (validate_input ''Group'' ''Garden'') \<and>
    load_contact_lines 1 [''Alice,abc,not-an-email,Garden''] =
      ([\<lparr>Name = ''Alice'', Contact = ''abc'', Email = ''not-an-email'', Group = ''Garden''\<rparr>], [])) \<and>
   load_user_lines 1 [] [''1001:0a1b:Ann Lee:student''] =
     ([], [Invalid_category 1 ''student'' ''1001''])"
proof -
  have g: "\<not> fst (validate_input ''Group'' ''Garden'')"
    by code_simp
  have c1: "strip ''Alice,abc,not-an-email,Garden'' \<noteq> []"
    and c2: "split (CHR '','') (strip ''Alice,abc,not-an-email,Garden'') =
              [''Alice'', ''abc'', ''not-an-email'', ''Garden'']"
    and u1: "strip ''1001:0a1b:Ann Lee:student'' \<noteq> []"
    and u2: "split_max (CHR '':'') 3 (strip ''1001:0a1b:Ann Lee:student'') =
              [''1001'', ''0a1b'', ''Ann Lee'', ''student'']"
    and u3: "''student'' \<notin> set VALID_CATEGORIES"
    by code_simp+
  from loaders_validation [where l = "''Alice,abc,not-an-email,Garden''" and k = 1,
      THEN conjunct1] c1 c2
  have one: "load_contact_lines 1 [''Alice,abc,not-an-email,Garden''] =
      ([\<lparr>Name = ''Alice'', Contact = ''abc'', Email = ''not-an-email'', Group = ''Garden''\<rparr>], [])"
    by blast
  from loaders_validation [where ul = "''1001:0a1b:Ann Lee:student''" and k = 1 and acc = "[]",
      THEN conjunct2, THEN conjunct1] u1 u2 u3
  have two: "load_user_lines 1 [] [''1001:0a1b:Ann Lee:student''] =
      ([], [Invalid_category 1 ''student'' ''1001''])"
    by blast
  from g one two show ?thesis by blast
qed

text \<open>
  The claim as stated fails for contacts: a line whose number is not made of digits, whose
  e-mail address has no \<open>@\<close> and whose group is outside the allowed set is admitted as a
  record.
\<close>

theorem invalid_contact_admitted_counterexample:
  "\<not> fst (validate_input ''Contact'' ''abc'') \<and> \<not> fst (validate_input ''Email'' ''not-an-email'') \<and>
   \<not> fst (validate_input ''Group'' ''Garden'') \<and>
   load_contacts \<lparr>contacts = [], database_file = Some garden_file\<rparr> =
     (\<lparr>contacts = [\<lparr>Name = ''Alice'', Contact = ''abc'', Email = ''not-an-email'',
                     Group = ''Garden''\<rparr>],
       database_file = Some garden_file\<rparr>,
      [Contacts_loaded 1])"
  by code_simp

section \<open>Properties of signing up\<close>

lemma update_new_key: "k \<notin> set (map fst al) \<Longrightarrow> AList.update k v al = al @ [(k, v)]"
  by (induction al) auto

lemma signup_taken_iff:
  assumes "strip name \<noteq> []" "strip password \<noteq> []"
  shows "signup digest m name password = (m, False, [Username_taken name]) \<longleftrightarrow>
         strip name \<in> set (map fst (users m))"
  using assms by (auto simp: signup_def Let_def split: option.splits)

lemma signup_accepted:
  assumes "strip name \<noteq> []" "strip password \<noteq> []" "strip (digest password) \<noteq> []"
    and "strip name \<notin> set (map fst (users m))"
  shows "fst (snd (signup digest m name password)) \<and>
         map fst (users (fst (signup digest m name password))) =
           map fst (users m) @ [strip name]"
  using assms
  by (simp add: signup_def Let_def User_init_def strip_idem update_new_key save_users_def)

lemma read_account_no_exists_iff:
  assumes "isdigit (strip typed)"
  shows "read_account_no in_use (typed # rest) =
           (fst (read_account_no in_use rest),
            Account_exists (strip typed) # snd (read_account_no in_use rest)) \<longleftrightarrow>
         strip typed \<in> set in_use"
  using assms by (auto simp: Let_def split: prod.splits)

lemma read_category_messages:
  "read_category typed = (r, out) \<Longrightarrow> set out \<subseteq> {Invalid_category_choice}"
  by (induction typed arbitrary: r out) (auto simp: Let_def split: prod.splits if_splits)

lemma fin_signup_exists:
  assumes "isdigit (strip typed)" "strip typed \<in> set (map fst (fin_users ft))"
  shows "fin_signup digest ft (typed # rest) =
           (fst (fin_signup digest ft rest),
            Account_exists (strip typed) # snd (fin_signup digest ft rest))"
proof -
  obtain r out where ra: "read_account_no (map fst (fin_users ft)) rest = (r, out)"
    by (cases "read_account_no (map fst (fin_users ft)) rest")
  with assms have rb: "read_account_no (map fst (fin_users ft)) (typed # rest) =
      (r, Account_exists (strip typed) # out)"
    by (simp add: Let_def)
  show ?thesis
    unfolding fin_signup_def ra rb
    by (simp split: option.splits list.splits prod.splits)
qed

lemma fin_signup_new_account:
  assumes "isdigit (strip typed)" "strip typed \<notin> set (map fst (fin_users ft))"
  shows "Account_exists a \<notin> set (snd (fin_signup digest ft (typed # rest)))"
proof -
  from assms have r: "read_account_no (map fst (fin_users ft)) (typed # rest) =
      (Some (strip typed, rest), [])"
    by (simp add: Let_def)
  show ?thesis
    unfolding fin_signup_def r
    by (auto simp: Let_def split: list.splits prod.splits option.splits
        dest!: read_category_messages)
qed

lemma fin_signup_exists_iff:
  assumes "isdigit (strip typed)"
  shows "fin_signup digest ft (typed # rest) =
           (fst (fin_signup digest ft rest),
            Account_exists (strip typed) # snd (fin_signup digest ft rest)) \<longleftrightarrow>
         strip typed \<in> set (map fst (fin_users ft))"
proof
  assume e: "fin_signup digest ft (typed # rest) =
           (fst (fin_signup digest ft rest),
            Account_exists (strip typed) # snd (fin_signup digest ft rest))"
  show "strip typed \<in> set (map fst (fin_users ft))"
  proof (rule ccontr)
    assume "strip typed \<notin> set (map fst (fin_users ft))"
    from fin_signup_new_account [OF assms this, of "strip typed" digest rest] e
    show False by simp
  qed
next
  assume "strip typed \<in> set (map fst (fin_users ft))"
  with assms show "fin_signup digest ft (typed # rest) =
           (fst (fin_signup digest ft rest),
            Account_exists (strip typed) # snd (fin_signup digest ft rest))"
    by (rule fin_signup_exists)
qed

lemma fin_signup_accepts:
  assumes "isdigit (strip typed)" "strip typed \<notin> set (map fst (fin_users ft))"
    and "strip password \<noteq> []" "strip full_name \<noteq> []"
    and "lower (strip cat) \<in> set VALID_CATEGORIES"
  shows "fin_signup digest ft (typed # password # full_name # cat # rest) =
           (Some (save_fin_users
                    (ft\<lparr>fin_users := fin_users ft @
                         [(strip typed,
                           \<lparr>account_no = strip typed,
                             fin_hashed_password = digest (strip password),
                             fin_name = strip full_name, category = lower (strip cat)\<rparr>)]\<rparr>),
                  True, rest),
            [Account_created (strip typed)])"
proof -
  from assms(1,2) have r: "read_account_no (map fst (fin_users ft))
      (typed # password # full_name # cat # rest) =
      (Some (strip typed, password # full_name # cat # rest), [])"
    by (simp add: Let_def)
  show ?thesis
    unfolding fin_signup_def r
    using assms(2-5) by (simp add: Let_def update_new_key)
qed

text \<open>
  C10. Signing up compares the candidate, trimmed as \<open>signup\<close> trims it, with the existing
  keys as exact strings. On the platform a candidate with a non-blank name and password is
  rejected as taken exactly when its trimmed name is one of the existing user names, and is
  otherwise accepted and appended (given a non-blank digest), so a name that differs from
  an existing one in letter case only is accepted. In the finance tracker an all-digit
  account number is refused as existing, and asked for again, exactly when it is one of
  the account numbers of the users in memory; this holds for the prompt loop and for
  \<open>FinancialTracker.signup\<close> as a whole, which creates the account for a number that is
  not among them once a password, a name and an allowed category are typed.
\<close>

theorem signup_exact_match:
  "(strip name \<noteq> [] \<and> strip password \<noteq> [] \<longrightarrow>
      (signup digest m name password = (m, False, [Username_taken name]) \<longleftrightarrow>
       strip name \<in> set (map fst (users m)))) \<and>
   (strip name \<noteq> [] \<and> strip password \<noteq> [] \<and> strip (digest password) \<noteq> [] \<and>
    strip name \<notin> set (map fst (users m)) \<longrightarrow>
      fst (snd (signup digest m name password)) \<and>
      map fst (users (fst (signup digest m name password))) = map fst (users m) @ [strip name]) \<and>
   (isdigit (strip typed) \<longrightarrow>
      (read_account_no in_use (typed # rest) =
         (fst (read_account_no in_use rest),
          Account_exists (strip typed) # snd (read_account_no in_use rest)) \<longleftrightarrow>
       strip typed \<in> set in_use)) \<and>
   (isdigit (strip typed) \<longrightarrow>
      (fin_signup digest ft (typed # rest) =
         (fst (fin_signup digest ft rest),
          Account_exists (strip typed) # snd (fin_signup digest ft rest)) \<longleftrightarrow>
       strip typed \<in> set (map fst (fin_users ft)))) \<and>
   (isdigit (strip typed) \<and> strip typed \<notin> set (map fst (fin_users ft)) \<and>
    strip password \<noteq> [] \<and> strip full_name \<noteq> [] \<and> lower (strip cat) \<in> set VALID_CATEGORIES \<longrightarrow>
      fin_signup digest ft (typed # password # full_name # cat # rest) =
        (Some (save_fin_users
                 (ft\<lparr>fin_users := fin_users ft @
                      [(strip typed,
                        \<lparr>account_no = strip typed,
                          fin_hashed_password = digest (strip password),
                          fin_name = strip full_name, category = lower (strip cat)\<rparr>)]\<rparr>),
               True, rest),
         [Account_created (strip typed)]))"
  using signup_taken_iff [of name password digest m] signup_accepted [of name password digest m]
    read_account_no_exists_iff [of typed in_use rest]
    fin_signup_exists_iff [of typed digest ft rest]
    fin_signup_accepts [of typed ft password full_name cat digest rest]
  by blast

lemma bob_platform_users:
  "map fst (users bob_platform) = [''Bob'']"
  by code_simp

lemma ann_tracker_accounts: "map fst (fin_users ann_tracker) = [''1001'']"
  by (simp add: ann_tracker_def)

theorem signup_exact_match_witness:
  "(lower ''bob'' = lower ''Bob'' \<and>
    fst (snd (signup fixed_digest bob_platform ''bob'' ''hunter2'')) \<and>
    map fst (users (fst (signup fixed_digest bob_platform ''bob'' ''hunter2''))) =
      [''Bob'', ''bob'']) \<and>
   signup fixed_digest bob_platform ''Bob'' ''other'' =
     (bob_platform, False, [Username_taken ''Bob'']) \<and>
   read_account_no [''1001''] [''1001'', ''1002''] =
     (Some (''1002'', []), [Account_exists ''1001'']) \<and>
   snd (fin_signup fixed_digest ann_tracker
          [''1001'', ''1002'', ''hunter2'', ''Bea'', ''Full Time'']) =
     [Account_exists ''1001'', Account_created ''1002''] \<and>
   map fst (fin_users (fst (the (fst (fin_signup fixed_digest ann_tracker
          [''1001'', ''1002'', ''hunter2'', ''Bea'', ''Full Time'']))))) = [''1001'', ''1002'']"
proof -
  have s: "strip ''bob'' = ''bob''" "strip ''Bob'' = ''Bob''" "strip ''hunter2'' \<noteq> []"
    "strip ''other'' \<noteq> []" "strip (fixed_digest ''hunter2'') \<noteq> []"
    "strip ''1001'' = ''1001''" "isdigit (strip ''1001'')"
    and l: "lower ''bob'' = lower ''Bob''"
    and r: "read_account_no [''1001''] [''1002''] = (Some (''1002'', []), [])"
    and mem: "strip ''1001'' \<in> set [''1001'']"
    by code_simp+
  have f: "strip ''1002'' = ''1002''" "isdigit (strip ''1002'')" "strip ''Bea'' \<noteq> []"
    "lower (strip ''Full Time'') \<in> set VALID_CATEGORIES"
    by code_simp+
  from signup_exact_match [where name = "''bob''" and password = "''hunter2''" and
      digest = fixed_digest and m = bob_platform, THEN conjunct2, THEN conjunct1]
  have one: "fst (snd (signup fixed_digest bob_platform ''bob'' ''hunter2'')) \<and>
      map fst (users (fst (signup fixed_digest bob_platform ''bob'' ''hunter2''))) =
        [''Bob'', ''bob'']"
    using s by (simp add: bob_platform_users)
  from signup_exact_match [where name = "''Bob''" and password = "''other''" and
      digest = fixed_digest and m = bob_platform, THEN conjunct1]
  have two: "signup fixed_digest bob_platform ''Bob'' ''other'' =
      (bob_platform, False, [Username_taken ''Bob''])"
    using s by (simp add: bob_platform_users)
  from signup_exact_match [where typed = "''1001''" and in_use = "[''1001'']" and
      rest = "[''1002'']", THEN conjunct2, THEN conjunct2, THEN conjunct1]
  have "read_account_no [''1001''] [''1001'', ''1002''] =
      (fst (read_account_no [''1001''] [''1002'']),
       Account_exists (strip ''1001'') # snd (read_account_no [''1001''] [''1002'']))"
    using s(7) mem by blast
  then have three: "read_account_no [''1001''] [''1001'', ''1002''] =
      (Some (''1002'', []), [Account_exists ''1001''])"
    by (simp only: r s(6) fst_conv snd_conv)
  let ?rest = "[''1002'', ''hunter2'', ''Bea'', ''Full Time'']"
  from signup_exact_match [where typed = "''1002''" and ft = ann_tracker and
      password = "''hunter2''" and full_name = "''Bea''" and cat = "''Full Time''" and
      digest = fixed_digest and rest = "[]",
      THEN conjunct2, THEN conjunct2, THEN conjunct2, THEN conjunct2]
  obtain ft' where created: "fin_signup fixed_digest ann_tracker ?rest =
      (Some (ft', True, []), [Account_created ''1002''])"
    and accounts: "map fst (fin_users ft') = [''1001'', ''1002'']"
    using f s(3) by (simp add: ann_tracker_accounts save_fin_users_def)
  from signup_exact_match [where typed = "''1001''" and ft = ann_tracker and
      digest = fixed_digest and rest = ?rest,
      THEN conjunct2, THEN conjunct2, THEN conjunct2, THEN conjunct1]
  have "fin_signup fixed_digest ann_tracker (''1001'' # ?rest) =
      (fst (fin_signup fixed_digest ann_tracker ?rest),
       Account_exists (strip ''1001'') # snd (fin_signup fixed_digest ann_tracker ?rest))"
    using s(7) mem by (simp add: ann_tracker_accounts)
  then have "fin_signup fixed_digest ann_tracker (''1001'' # ?rest) =
      (Some (ft', True, []), [Account_exists ''1001'', Account_created ''1002''])"
    by (simp only: created s(6) fst_conv snd_conv)
  with accounts have four:
    "snd (fin_signup fixed_digest ann_tracker (''1001'' # ?rest)) =
       [Account_exists ''1001'', Account_created ''1002''] \<and>
     map fst (fin_users (fst (the (fst (fin_signup fixed_digest ann_tracker
       (''1001'' # ?rest)))))) = [''1001'', ''1002'']"
    by simp
  from l one two three four show ?thesis by blast
qed

section \<open>Properties of the finance tracker's amounts\<close>

lemma float_le_zero_iff:
  "float_le a 0 \<longleftrightarrow> (\<exists>r. a = Finite r \<and> r \<le> 0) \<or> a = Neg_Inf"
  by (cases a) simp_all

lemma float_lt_zero_iff:
  "float_lt a 0 \<longleftrightarrow> (\<exists>r. a = Finite r \<and> r < 0) \<or> a = Neg_Inf"
  by (cases a) simp_all

lemma read_amount_rejects:
  "to_float (strip typed) = Some a \<Longrightarrow> float_le a 0 \<Longrightarrow>
   read_amount to_float (typed # rest) =
     (fst (read_amount to_float rest), Amount_must_be_positive # snd (read_amount to_float rest))"
  by (simp split: prod.splits)

lemma add_transaction_rejects:
  assumes "to_float (strip typed) = Some a" "float_le a 0"
  shows "add_transaction to_float float_str isoformat m account (typed # rest) now =
           (fst (add_transaction to_float float_str isoformat m account rest now),
            Amount_must_be_positive #
            snd (add_transaction to_float float_str isoformat m account rest now))"
proof -
  obtain r out where ra: "read_amount to_float rest = (r, out)"
    by (cases "read_amount to_float rest")
  with read_amount_rejects [of to_float typed a rest] assms
  have "read_amount to_float (typed # rest) = (r, Amount_must_be_positive # out)"
    by simp
  with ra show ?thesis
    by (simp add: add_transaction_def Let_def split: option.splits prod.splits list.splits)
qed

lemma read_amount_passed:
  "read_amount to_float typed = (Some (a, rest), out) \<Longrightarrow> \<not> float_le a 0"
  by (induction typed arbitrary: out)
     (auto split: option.splits if_splits prod.splits)

lemma add_transaction_passed:
  assumes "add_transaction to_float float_str isoformat m account typed now =
             (Some (m', rest), out)"
  shows "\<exists>t. transactions m' = transactions m @ [t] \<and> \<not> float_le (amount t) 0 \<and>
             transactions_file m' =
               Some ((case transactions_file m of None \<Rightarrow> [] | Some content \<Rightarrow> content) @
                     transaction_line float_str isoformat t @ [LF])"
  using assms
  by (auto simp: add_transaction_def Let_def append_transaction_to_file_def
      split: option.splits prod.splits list.splits if_splits dest: read_amount_passed)

lemma load_negative_dropped:
  "strip l \<noteq> [] \<Longrightarrow> split_max (CHR '','') 4 (strip l) = [p0, p1, p2, p3, p4] \<Longrightarrow>
   fromisoformat p1 = Some stamp \<Longrightarrow> to_float p3 = Some a \<Longrightarrow> float_lt a 0 \<Longrightarrow>
   load_transaction_lines to_float fromisoformat k [l] = ([], [Invalid_transaction k p0])"
  by (simp add: Let_def)

lemma load_not_negative_admitted:
  "strip l \<noteq> [] \<Longrightarrow> split_max (CHR '','') 4 (strip l) = [p0, p1, p2, p3, p4] \<Longrightarrow>
   fromisoformat p1 = Some stamp \<Longrightarrow> to_float p3 = Some a \<Longrightarrow> \<not> float_lt a 0 \<Longrightarrow>
   p2 = ''Income'' \<or> p2 = ''Expense'' \<Longrightarrow>
   load_transaction_lines to_float fromisoformat k [l] =
     ([\<lparr>tr_account_no = p0, timestamp = stamp, trans_type = p2, amount = a,
         tr_description = p4\<rparr>], [])"
  by (auto simp: Let_def)

text \<open>
  C6 (as amended). At entry an amount for which \<open>amount <= 0\<close> holds, as it does for -5 and
  for 0, is rejected with a message and has no other effect: \<open>add_transaction\<close> goes on as
  if it had not been typed, and a transaction is appended to memory and file only with an
  amount for which that test is false. At load a well-formed line with an amount for which
  \<open>amount < 0\<close> holds, as it does for -5, is dropped with a warning, and loading goes on; a
  line with any other amount, 0 among them, and an allowed kind is admitted as a record.
  The two tests are false for \<open>nan\<close>, which \<open>float(s)\<close> reads: the amount \<open>nan\<close> passes
  both.
\<close>

theorem amounts_at_entry_and_load:
  "(to_float (strip typed) = Some a \<and> float_le a 0 \<longrightarrow>
      add_transaction to_float float_str isoformat m account (typed # rest) now =
        (fst (add_transaction to_float float_str isoformat m account rest now),
         Amount_must_be_positive #
         snd (add_transaction to_float float_str isoformat m account rest now))) \<and>
   (add_transaction to_float float_str isoformat m account lines now = (Some (m', left), out)
      \<longrightarrow> (\<exists>t. transactions m' = transactions m @ [t] \<and> \<not> float_le (amount t) 0 \<and>
                transactions_file m' =
                  Some ((case transactions_file m of None \<Rightarrow> [] | Some content \<Rightarrow> content) @
                        transaction_line float_str isoformat t @ [LF]))) \<and>
   (strip l \<noteq> [] \<and> split_max (CHR '','') 4 (strip l) = [acct, stamp_text, kind, amt_text, desc] \<and>
    fromisoformat stamp_text = Some stamp \<and> to_float amt_text = Some b \<and> float_lt b 0 \<longrightarrow>
      load_transaction_lines to_float fromisoformat k [l] = ([], [Invalid_transaction k acct])) \<and>
   (strip l \<noteq> [] \<and> split_max (CHR '','') 4 (strip l) = [acct, stamp_text, kind, amt_text, desc] \<and>
    fromisoformat stamp_text = Some stamp \<and> to_float amt_text = Some b \<and> \<not> float_lt b 0 \<and>
    (kind = ''Income'' \<or> kind = ''Expense'') \<longrightarrow>
      load_transaction_lines to_float fromisoformat k [l] =
        ([\<lparr>tr_account_no = acct, timestamp = stamp, trans_type = kind, amount = b,
            tr_description = desc\<rparr>], []))"
  using add_transaction_rejects [of to_float typed a float_str isoformat m account rest now]
    add_transaction_passed [of to_float float_str isoformat m account lines now m' left out]
    load_negative_dropped [of l acct stamp_text kind amt_text desc fromisoformat stamp to_float b k]
    load_not_negative_admitted
      [of l acct stamp_text kind amt_text desc fromisoformat stamp to_float b k]
  by blast

lemma float_minus_five: "float_of_literal ''-5'' = Some (Finite (- 5))"
  by (simp add: float_of_literal_def text_defs)

lemma float_zero: "float_of_literal ''0'' = Some (Finite 0)"
  by (simp add: float_of_literal_def text_defs)

lemma float_twelve: "float_of_literal ''12'' = Some (Finite 12)"
  by (simp add: float_of_literal_def text_defs)

lemma float_nan: "float_of_literal ''nan'' = Some NaN"
  by (simp add: float_of_literal_def text_defs)

lemma gift_line_parts:
  "file_lines zero_amount_file = [''1001,2024-06-16T16:00:00,Income,0,Gift'']"
  "file_lines minus_five_file = [''1001,2024-06-16T16:00:00,Income,-5,Gift'']"
  "strip ''1001,2024-06-16T16:00:00,Income,0,Gift'' = ''1001,2024-06-16T16:00:00,Income,0,Gift''"
  "strip ''1001,2024-06-16T16:00:00,Income,-5,Gift'' = ''1001,2024-06-16T16:00:00,Income,-5,Gift''"
  "split_max (CHR '','') 4 ''1001,2024-06-16T16:00:00,Income,0,Gift'' =
     [''1001'', ''2024-06-16T16:00:00'', ''Income'', ''0'', ''Gift'']"
  "split_max (CHR '','') 4 ''1001,2024-06-16T16:00:00,Income,-5,Gift'' =
     [''1001'', ''2024-06-16T16:00:00'', ''Income'', ''-5'', ''Gift'']"
  "datetime_fromisoformat ''2024-06-16T16:00:00'' = Some (creation_datetime milk)"
  by code_simp+

lemma typed_lunch:
  "strip ''-5'' = ''-5''" "strip ''0'' = ''0''" "strip ''12'' = ''12''" "strip ''nan'' = ''nan''"
  "capitalize (strip ''income'') = ''Income''" "strip ''Lunch'' = ''Lunch''"
  by code_simp+

lemma add_lunch:
  "add_transaction float_of_literal whole_float_str datetime_isoformat (tracker_of [])
     ''1001'' [''-5'', ''12'', ''income'', ''Lunch''] noon =
   (Some (\<lparr>fin_users = [],
           transactions = [\<lparr>tr_account_no = ''1001'', timestamp = noon, trans_type = ''Income'',
                             amount = Finite 12, tr_description = ''Lunch''\<rparr>],
           fin_users_file = None,
           transactions_file = Some (''1001,2024-07-01T12:00:00,Income,12.0,Lunch'' @ [LF])\<rparr>,
          []),
    [Amount_must_be_positive, Transaction_added])"
  by (simp add: add_transaction_def typed_lunch float_minus_five float_twelve tracker_of_def
      append_transaction_to_file_def transaction_line_def isoformat_noon
      str_int_def digit_char_def)

text \<open>
  The amount \<open>nan\<close> at entry: \<open>nan <= 0\<close> is false, so the transaction is appended to memory
  and written to the file.
\<close>

lemma add_nan:
  "add_transaction float_of_literal whole_float_str datetime_isoformat (tracker_of [])
     ''1001'' [''nan'', ''income'', ''Lunch''] noon =
   (Some (\<lparr>fin_users = [],
           transactions = [\<lparr>tr_account_no = ''1001'', timestamp = noon, trans_type = ''Income'',
                             amount = NaN, tr_description = ''Lunch''\<rparr>],
           fin_users_file = None,
           transactions_file = Some (''1001,2024-07-01T12:00:00,Income,nan,Lunch'' @ [LF])\<rparr>,
          []),
    [Transaction_added])"
  by (simp add: add_transaction_def typed_lunch float_nan tracker_of_def
      append_transaction_to_file_def transaction_line_def isoformat_noon)

theorem amounts_at_entry_and_load_witness:
  "add_transaction float_of_literal whole_float_str datetime_isoformat (tracker_of [])
     ''1001'' [''-5'', ''0''] noon = (None, [Amount_must_be_positive, Amount_must_be_positive]) \<and>
   (\<exists>t. transactions (fst (the (fst (add_transaction float_of_literal whole_float_str
            datetime_isoformat (tracker_of []) ''1001'' [''-5'', ''12'', ''income'', ''Lunch'']
            noon)))) = [t] \<and> \<not> float_le (amount t) 0) \<and>
   load_transaction_lines float_of_literal datetime_fromisoformat 1
     [''1001,2024-06-16T16:00:00,Income,-5,Gift''] = ([], [Invalid_transaction 1 ''1001'']) \<and>
   load_transaction_lines float_of_literal datetime_fromisoformat 1
     [''1001,2024-06-16T16:00:00,Income,0,Gift''] =
     ([\<lparr>tr_account_no = ''1001'', timestamp = creation_datetime milk, trans_type = ''Income'',
         amount = Finite 0, tr_description = ''Gift''\<rparr>], [])"
proof -
  let ?add = "add_transaction float_of_literal whole_float_str datetime_isoformat (tracker_of [])
                ''1001''"
  note t = amounts_at_entry_and_load [where to_float = float_of_literal and
      float_str = whole_float_str and isoformat = datetime_isoformat and
      fromisoformat = datetime_fromisoformat and m = "tracker_of []" and account = "''1001''" and
      now = noon and k = 1]
  have e: "?add [] noon = (None, [])"
    by (simp add: add_transaction_def)
  have "float_of_literal (strip ''0'') = Some (Finite 0) \<and> float_le (Finite 0) 0"
    by (simp add: typed_lunch float_zero)
  with t [where typed = "''0''" and a = "Finite 0" and rest = "[]", THEN conjunct1]
  have z: "?add [''0''] noon = (None, [Amount_must_be_positive])"
    by (simp only: e fst_conv snd_conv)
  have "float_of_literal (strip ''-5'') = Some (Finite (- 5)) \<and> float_le (Finite (- 5)) 0"
    by (simp add: typed_lunch float_minus_five)
  with t [where typed = "''-5''" and a = "Finite (- 5)" and rest = "[''0'']", THEN conjunct1]
  have one: "?add [''-5'', ''0''] noon = (None, [Amount_must_be_positive, Amount_must_be_positive])"
    by (simp only: z fst_conv snd_conv)
  from t [where lines = "[''-5'', ''12'', ''income'', ''Lunch'']", THEN conjunct2, THEN conjunct1,
      rule_format, OF add_lunch]
  obtain t where "transactions (fst (the (fst (?add [''-5'', ''12'', ''income'', ''Lunch''] noon))))
      = transactions (tracker_of []) @ [t]" and "\<not> float_le (amount t) 0"
    by (simp only: add_lunch fst_conv option.sel) blast
  then have two: "\<exists>t. transactions (fst (the (fst (?add [''-5'', ''12'', ''income'', ''Lunch''] noon))))
      = [t] \<and> \<not> float_le (amount t) 0"
    by (auto simp: tracker_of_def)
  have neg: "float_lt (Finite (- 5)) 0" by simp
  from t [where l = "''1001,2024-06-16T16:00:00,Income,-5,Gift''" and b = "Finite (- 5)",
      THEN conjunct2, THEN conjunct2, THEN conjunct1]
    gift_line_parts(4,6,7) float_minus_five neg
  have three: "load_transaction_lines float_of_literal datetime_fromisoformat 1
      [''1001,2024-06-16T16:00:00,Income,-5,Gift''] = ([], [Invalid_transaction 1 ''1001''])"
    by simp
  have zero: "\<not> float_lt (Finite 0) 0" by simp
  from t [where l = "''1001,2024-06-16T16:00:00,Income,0,Gift''" and b = "Finite 0",
      THEN conjunct2, THEN conjunct2, THEN conjunct2]
    gift_line_parts(3,5,7) float_zero zero
  have four: "load_transaction_lines float_of_literal datetime_fromisoformat 1
      [''1001,2024-06-16T16:00:00,Income,0,Gift''] =
      ([\<lparr>tr_account_no = ''1001'', timestamp = creation_datetime milk, trans_type = ''Income'',
          amount = Finite 0, tr_description = ''Gift''\<rparr>], [])"
    by simp
  from one two three four show ?thesis by blast
qed

text \<open>
  The claim as stated fails at load for the amount 0: the loader's guard is
  \<open>amount < 0\<close>, and a line with the amount 0 is admitted as a record without a warning.
\<close>

theorem zero_amount_loaded_counterexample:
  "float_of_literal ''0'' = Some (Finite 0) \<and>
   load_transactions float_of_literal datetime_fromisoformat (tracker_of zero_amount_file) =
     (\<lparr>fin_users = [],
       transactions = [\<lparr>tr_account_no = ''1001'', timestamp = creation_datetime milk,
                         trans_type = ''Income'', amount = Finite 0, tr_description = ''Gift''\<rparr>],
       fin_users_file = None, transactions_file = Some zero_amount_file\<rparr>,
      [Transactions_loaded 1])"
proof -
  have "zero_amount_file \<noteq> []"
    by (simp add: zero_amount_file_def)
  moreover have "load_transaction_lines float_of_literal datetime_fromisoformat 1
      [''1001,2024-06-16T16:00:00,Income,0,Gift''] =
      ([\<lparr>tr_account_no = ''1001'', timestamp = creation_datetime milk, trans_type = ''Income'',
          amount = Finite 0, tr_description = ''Gift''\<rparr>], [])"
    using gift_line_parts(3,5,7) float_zero
    by (intro load_not_negative_admitted) simp_all
  ultimately show ?thesis
    by (simp add: load_transactions_def tracker_of_def gift_line_parts(1) float_zero)
qed

section \<open>Writing and reading back a task\<close>

lemma digit_char_code: "n < 10 \<Longrightarrow> code_point (digit_char n) = 48 + n"
proof -
  have "list_all (\<lambda>k. code_point (digit_char k) = 48 + k) [0..<10]"
    by (simp add: upt_rec digit_char_def code_point_def)
  then show "n < 10 \<Longrightarrow> code_point (digit_char n) = 48 + n"
    by (simp add: list_all_iff)
qed

lemma digit_char_digit: "n < 10 \<Longrightarrow> is_ascii_digit (digit_char n)"
  by (simp add: is_ascii_digit_def digit_char_code)

lemma str_nat_digits: "list_all is_ascii_digit (str_nat n) \<and> str_nat n \<noteq> []"
proof (induction n rule: str_nat.induct)
  case (1 n)
  show ?case
  proof (cases "n < 10")
    case True
    then show ?thesis by (simp add: digit_char_digit)
  next
    case False
    with 1 have "list_all is_ascii_digit (str_nat (n div 10))" by simp
    moreover have "is_ascii_digit (digit_char (n mod 10))" by (simp add: digit_char_digit)
    ultimately show ?thesis using False by (subst str_nat.simps, subst (2) str_nat.simps) simp
  qed
qed

lemma digits_value_snoc:
  "digits_value (ds @ [c]) = 10 * digits_value ds + (code_point c - 48)"
  by (simp add: digits_value_def)

lemma digits_value_str_nat: "digits_value (str_nat n) = n"
proof (induction n rule: str_nat.induct)
  case (1 n)
  show ?case
  proof (cases "n < 10")
    case True
    then show ?thesis by (simp add: digits_value_def digit_char_code)
  next
    case False
    with 1 have "digits_value (str_nat (n div 10)) = n div 10" by simp
    then have "digits_value (str_nat (n div 10) @ [digit_char (n mod 10)]) = n"
      by (simp add: digits_value_snoc digit_char_code)
    with False show ?thesis by (subst str_nat.simps) simp
  qed
qed

lemma digit_not_space: "is_ascii_digit c \<Longrightarrow> \<not> isspace c"
  by (auto simp: is_ascii_digit_def isspace_def)

lemma digit_code_facts:
  "is_ascii_digit c \<Longrightarrow> c \<noteq> CHR ''-'' \<and> c \<noteq> CHR ''+'' \<and> c \<noteq> CHR ''_'' \<and> c \<noteq> CHR '','' \<and>
     c \<noteq> LF \<and> c \<noteq> CR"
  by (auto simp: is_ascii_digit_def code_point_def LF_def CR_def)

lemma digits_plain:
  assumes "list_all is_ascii_digit ds"
  shows "CHR ''_'' \<notin> set ds" "CHR '','' \<notin> set ds" "LF \<notin> set ds" "CR \<notin> set ds"
  using assms digit_code_facts by (auto simp: list_all_iff)

lemma no_underscore_ok: "CHR ''_'' \<notin> set ds \<Longrightarrow> no_double_underscore ds"
  by (induction ds rule: no_double_underscore.induct) auto

lemma strip_digits: "list_all is_ascii_digit ds \<Longrightarrow> strip ds = ds"
proof (cases "ds = []")
  case True
  then show ?thesis by (simp add: strip_def)
next
  case False
  assume "list_all is_ascii_digit ds"
  with False have "is_ascii_digit (hd ds)" "is_ascii_digit (last ds)"
    by (auto simp: list_all_iff)
  then show ?thesis by (intro strip_id) (simp add: digit_not_space)
qed

lemma py_int_digits:
  assumes "list_all is_ascii_digit ds" "ds \<noteq> []"
  shows "py_int ds = Some (int (digits_value ds))"
proof -
  obtain c r where cr: "ds = c # r" using assms(2) by (cases ds) auto
  with assms(1) have c: "c \<noteq> CHR ''-''" "c \<noteq> CHR ''+''"
    using digit_code_facts by auto
  have ok: "int_literal_ok ds"
  proof -
    have "list_all (\<lambda>c. is_ascii_digit c \<or> c = CHR ''_'') ds"
      using assms(1) by (auto simp: list_all_iff)
    moreover have "hd ds \<noteq> CHR ''_''" "last ds \<noteq> CHR ''_''"
      using digits_plain(1) [OF assms(1)] assms(2) by (metis hd_in_set, metis last_in_set)
    ultimately show ?thesis
      using assms(2) digits_plain(1) [OF assms(1)]
      by (simp add: int_literal_ok_def no_underscore_ok)
  qed
  have fl: "filter (\<lambda>c. c \<noteq> CHR ''_'') ds = ds"
    using digits_plain(1) [OF assms(1)] by (auto simp: filter_id_conv)
  have sb: "(case ds of [] \<Rightarrow> (1, [])
             | c # r \<Rightarrow> if c = CHR ''-'' then (- 1, r)
                        else if c = CHR ''+'' then (1, r) else (1, ds)) = (1 :: int, ds)"
    using cr c by simp
  show ?thesis
    unfolding py_int_def Let_def strip_digits [OF assms(1)] sb
    using ok by (simp add: fl)
qed

lemma py_int_str_int: "0 < i \<Longrightarrow> py_int (str_int i) = Some i"
  using py_int_digits [of "str_nat (nat i)"] str_nat_digits [of "nat i"]
  by (simp add: str_int_def digits_value_str_nat del: str_nat.simps)

lemma split_max_append:
  "sep \<notin> set a \<Longrightarrow> split_max sep (Suc n) (a @ sep # b) = a # split_max sep n b"
  by (induction a) auto

lemma lower_str_bool: "lower (str_bool b) = ''true'' \<longleftrightarrow> b"
proof -
  have "lower ''True'' = ''true''" and "lower ''False'' \<noteq> ''true''"
    by code_simp+
  then show ?thesis by (cases b) (simp_all add: str_bool_def)
qed

lemma str_bool_plain: "CHR '','' \<notin> set (str_bool b) \<and> LF \<notin> set (str_bool b) \<and> CR \<notin> set (str_bool b)"
  by (cases b) (simp_all add: str_bool_def LF_def CR_def)

lemma to_file_format_eq:
  "to_file_format isoformat t =
     str_int (task_id t) @ '','' @ description t @ '','' @ str_bool (is_completed t) @ '','' @
     isoformat (creation_datetime t) @ '','' @ deadline_str isoformat t"
  by (simp add: to_file_format_def deadline_str_def Let_def)

lemma str_int_pos:
  assumes "0 < i"
  shows "list_all is_ascii_digit (str_int i)" "str_int i \<noteq> []"
  using assms str_nat_digits [of "nat i"] by (simp_all add: str_int_def del: str_nat.simps)

lemma deadline_str_facts:
  assumes "task_storable isoformat fromisoformat t"
  shows "deadline_str isoformat t \<noteq> []"
    and "\<not> isspace (last (deadline_str isoformat t))"
    and "LF \<notin> set (deadline_str isoformat t)" "CR \<notin> set (deadline_str isoformat t)"
    and "(if deadline_str isoformat t \<noteq> ''None''
          then map_option Some (fromisoformat (deadline_str isoformat t))
          else Some None) = Some (deadline_datetime t)"
  using assms
  by (auto simp: task_storable_def deadline_str_def no_delimiter_iff isspace_def code_point_def
      LF_def CR_def split: option.splits)

lemma storable_line:
  assumes "task_storable isoformat fromisoformat t"
  shows "split_max (CHR '','') 4 (to_file_format isoformat t) =
           [str_int (task_id t), description t, str_bool (is_completed t),
            isoformat (creation_datetime t), deadline_str isoformat t]"
    and "strip (to_file_format isoformat t) = to_file_format isoformat t"
    and "to_file_format isoformat t \<noteq> []"
    and "LF \<notin> set (to_file_format isoformat t) \<and> CR \<notin> set (to_file_format isoformat t)"
proof -
  from assms have pos: "0 < task_id t" by (simp add: task_storable_def)
  note id = str_int_pos [OF pos]
  note idp = digits_plain [OF id(1)]
  from assms have d: "CHR '','' \<notin> set (description t)" "LF \<notin> set (description t)"
    "CR \<notin> set (description t)"
    and c: "CHR '','' \<notin> set (isoformat (creation_datetime t))"
      "LF \<notin> set (isoformat (creation_datetime t))" "CR \<notin> set (isoformat (creation_datetime t))"
    by (simp_all add: task_storable_def no_delimiter_iff)
  note b = str_bool_plain [of "is_completed t"]
  note dl = deadline_str_facts [OF assms]
  have four: "(4::nat) = Suc (Suc (Suc (Suc 0)))" by simp
  show "split_max (CHR '','') 4 (to_file_format isoformat t) =
           [str_int (task_id t), description t, str_bool (is_completed t),
            isoformat (creation_datetime t), deadline_str isoformat t]"
    unfolding to_file_format_eq four
    using idp(2) d(1) b c(1) by (simp add: split_max_append)
  show ne: "to_file_format isoformat t \<noteq> []"
    using id(2) by (simp add: to_file_format_eq)
  have "hd (to_file_format isoformat t) = hd (str_int (task_id t))"
    using id(2) by (simp add: to_file_format_eq)
  moreover have "is_ascii_digit (hd (str_int (task_id t)))"
    using id by (auto simp: list_all_iff)
  ultimately have h: "\<not> isspace (hd (to_file_format isoformat t))"
    by (simp add: digit_not_space)
  have "last (to_file_format isoformat t) = last (deadline_str isoformat t)"
    using dl(1) by (simp add: to_file_format_eq)
  with dl(2) have l: "\<not> isspace (last (to_file_format isoformat t))" by simp
  from h l show "strip (to_file_format isoformat t) = to_file_format isoformat t"
    by (simp add: strip_id)
  show "LF \<notin> set (to_file_format isoformat t) \<and> CR \<notin> set (to_file_format isoformat t)"
    using idp(3,4) d(2,3) b c(2,3) dl(3,4)
    by (simp add: to_file_format_eq LF_def CR_def)
qed

lemma storable_parse:
  assumes "task_storable isoformat fromisoformat t"
  shows "parse_task_parts fromisoformat
           [str_int (task_id t), description t, str_bool (is_completed t),
            isoformat (creation_datetime t), deadline_str isoformat t] = Some t"
proof -
  from assms have pos: "0 < task_id t" and de: "strip (description t) = description t"
    "description t \<noteq> []"
    and cr: "fromisoformat (isoformat (creation_datetime t)) = Some (creation_datetime t)"
    by (simp_all add: task_storable_def)
  note dl = deadline_str_facts(5) [OF assms]
  show ?thesis
    using dl pos de cr
    by (cases "deadline_str isoformat t = ''None''")
       (auto simp: parse_task_parts_def py_int_str_int lower_str_bool Task_init_def
           split: option.splits)
qed

lemma load_storable_task_lines:
  "list_all (task_storable isoformat fromisoformat) ts \<Longrightarrow>
   \<exists>fm. load_task_lines fromisoformat k mx (map (to_file_format isoformat) ts) = (ts, fm, [])"
proof (induction ts arbitrary: k mx)
  case Nil
  then show ?case by simp
next
  case (Cons t ts)
  then have st: "task_storable isoformat fromisoformat t" by simp
  note l = storable_line [OF st]
  note p = storable_parse [OF st]
  from Cons obtain fm where
    "load_task_lines fromisoformat (Suc k) (if task_id t > mx then task_id t else mx)
       (map (to_file_format isoformat) ts) = (ts, fm, [])"
    by fastforce
  then show ?case by (simp add: l p Let_def)
qed

lemma tasks_load_after_save:
  assumes "list_all (task_storable isoformat fromisoformat) (tasks m)"
  shows "tasks (fst (load_tasks fromisoformat (save_tasks isoformat m))) = tasks m \<and>
         task_file (save_tasks isoformat (fst (load_tasks fromisoformat (save_tasks isoformat m))))
           = task_file (save_tasks isoformat m)"
proof -
  let ?content = "concat (map (\<lambda>t. to_file_format isoformat t @ [LF]) (tasks m))"
  have c: "?content = concat (map (\<lambda>l. l @ [LF]) (map (to_file_format isoformat) (tasks m)))"
    by (simp add: comp_def)
  have fl: "file_lines ?content = map (to_file_format isoformat) (tasks m)"
    unfolding c using assms
    by (intro file_lines_terminated) (auto simp: list_all_iff dest: storable_line(4))
  from load_storable_task_lines [OF assms, of 1 0] obtain fm where
    r: "load_task_lines fromisoformat 1 0 (map (to_file_format isoformat) (tasks m)) =
          (tasks m, fm, [])" by blast
  have "tasks (fst (load_tasks fromisoformat (save_tasks isoformat m))) = tasks m"
  proof (cases "tasks m = []")
    case True
    then show ?thesis by (simp add: load_tasks_def save_tasks_def)
  next
    case False
    then show ?thesis using fl r by (simp add: load_tasks_def save_tasks_def)
  qed
  then show ?thesis
    by (simp add: save_tasks_def)
qed

section \<open>Saving, loading and saving again\<close>

text \<open>
  C1 (as amended). For a list of contacts in which no field holds a comma or a line break,
  no name begins with whitespace and no group ends with it, loading the saved file gives
  back the list and the file, so saving again writes byte-identical content; every list
  that \<open>_load_contacts\<close> produces is of this kind. For a list of tasks as the constructor
  makes them, whose descriptions hold no comma or line break and whose dates are written
  without comma or line break and read back as they were, loading the saved file gives back
  the list, so saving again writes byte-identical content.
\<close>

theorem save_load_save:
  "(list_all storable (contacts m) \<longrightarrow>
      fst (load_contacts (save_contacts m)) = save_contacts m \<and>
      save_contacts (fst (load_contacts (save_contacts m))) = save_contacts m) \<and>
   list_all storable (contacts (fst (load_contacts m'))) \<and>
   (list_all (task_storable isoformat fromisoformat) (tasks tm) \<longrightarrow>
      tasks (fst (load_tasks fromisoformat (save_tasks isoformat tm))) = tasks tm \<and>
      task_file (save_tasks isoformat (fst (load_tasks fromisoformat (save_tasks isoformat tm))))
        = task_file (save_tasks isoformat tm))"
proof -
  have "save_contacts (save_contacts m) = save_contacts m"
    by (simp add: save_contacts_def)
  then show ?thesis
    using load_after_save [of m] loaded_storable [of _ m']
      tasks_load_after_save [of isoformat fromisoformat tm]
    by (auto simp: list_all_iff)
qed

lemma replicate_3: "replicate 3 c = [c, c, c]"
  by (simp add: numeral_3_eq_3)

lemma dates_137:
  "datetime_isoformat \<lparr>year = 2024, month = 6, day = 16, hour = 16, minute = 0, second = 0,
     microsecond = 0\<rparr> = ''2024-06-16T16:00:00''"
  "datetime_isoformat \<lparr>year = 2024, month = 6, day = 17, hour = 9, minute = 30, second = 0,
     microsecond = 0\<rparr> = ''2024-06-17T09:30:00''"
  "datetime_isoformat \<lparr>year = 2024, month = 6, day = 20, hour = 12, minute = 0, second = 0,
     microsecond = 0\<rparr> = ''2024-06-20T12:00:00''"
  "datetime_isoformat \<lparr>year = 2024, month = 6, day = 18, hour = 8, minute = 15, second = 0,
     microsecond = 250\<rparr> = ''2024-06-18T08:15:00.000250''"
  by (simp_all add: datetime_isoformat_def zero_pad_def replicate_3 text_defs)

lemma dates_137_read:
  "datetime_fromisoformat ''2024-06-16T16:00:00'' =
     Some \<lparr>year = 2024, month = 6, day = 16, hour = 16, minute = 0, second = 0, microsecond = 0\<rparr>"
  "datetime_fromisoformat ''2024-06-17T09:30:00'' =
     Some \<lparr>year = 2024, month = 6, day = 17, hour = 9, minute = 30, second = 0, microsecond = 0\<rparr>"
  "datetime_fromisoformat ''2024-06-20T12:00:00'' =
     Some \<lparr>year = 2024, month = 6, day = 20, hour = 12, minute = 0, second = 0, microsecond = 0\<rparr>"
  "datetime_fromisoformat ''2024-06-18T08:15:00.000250'' =
     Some \<lparr>year = 2024, month = 6, day = 18, hour = 8, minute = 15, second = 0,
            microsecond = 250\<rparr>"
  by code_simp+

lemma loaded_137_storable:
  "list_all (task_storable datetime_isoformat datetime_fromisoformat) (tasks loaded_137)"
  by (simp add: loaded_137_def task_storable_def dates_137 dates_137_read no_delimiter_def
      milk_def text_defs)

theorem save_load_save_witness:
  "(list_all storable (contacts alice_book) \<and>
    database_file (save_contacts (fst (load_contacts (save_contacts alice_book)))) =
      Some (''Alice,5551234567,a@b.com,Home'' @ [LF])) \<and>
   (list_all (task_storable datetime_isoformat datetime_fromisoformat) (tasks loaded_137) \<and>
    tasks (fst (load_tasks datetime_fromisoformat (save_tasks datetime_isoformat loaded_137))) =
      tasks loaded_137 \<and>
    task_file (save_tasks datetime_isoformat
      (fst (load_tasks datetime_fromisoformat (save_tasks datetime_isoformat loaded_137)))) =
      task_file (save_tasks datetime_isoformat loaded_137))"
proof -
  have h: "list_all storable (contacts alice_book)"
    by code_simp
  have s: "save_contacts alice_book = alice_book"
    by code_simp
  from save_load_save [of alice_book, THEN conjunct1] h
  have "save_contacts (fst (load_contacts (save_contacts alice_book))) = save_contacts alice_book"
    by blast
  with h s have one: "list_all storable (contacts alice_book) \<and>
      database_file (save_contacts (fst (load_contacts (save_contacts alice_book)))) =
        Some (''Alice,5551234567,a@b.com,Home'' @ [LF])"
    by (simp add: alice_book_eq)
  from save_load_save [where isoformat = datetime_isoformat and
      fromisoformat = datetime_fromisoformat and tm = loaded_137, THEN conjunct2, THEN conjunct2]
    loaded_137_storable
  have two: "tasks (fst (load_tasks datetime_fromisoformat
        (save_tasks datetime_isoformat loaded_137))) = tasks loaded_137 \<and>
      task_file (save_tasks datetime_isoformat
        (fst (load_tasks datetime_fromisoformat (save_tasks datetime_isoformat loaded_137)))) =
        task_file (save_tasks datetime_isoformat loaded_137)"
    by blast
  from one two loaded_137_storable show ?thesis by blast
qed

text \<open>
  The claim as stated fails for a contact that \<open>add_contact\<close> accepts: a name with a
  comma is written as is, its line then has five fields and is skipped at load, and the
  second save writes an empty file.
\<close>

theorem save_load_save_counterexample:
  "contacts comma_book =
     [\<lparr>Name = ''Doe, Jane'', Contact = ''5551234567'', Email = ''jane@doe.org'', Group = ''Home''\<rparr>] \<and>
   database_file (save_contacts comma_book) = Some (''Doe, Jane,5551234567,jane@doe.org,Home'' @ [LF]) \<and>
   database_file (save_contacts (fst (load_contacts (save_contacts comma_book)))) = Some []"
  by code_simp

end
